theory Spec2Isabelle
  imports Main
begin

section \<open>JSON values\<close>

text \<open>
  Tool arguments, tool-response payloads and tool-parameter schemas are arbitrary
  JSON values (the result of \<^verbatim>\<open>JSON.parse\<close> on the request body). An object is the
  list of its own properties in the order \<^verbatim>\<open>Object.entries\<close> enumerates them. A number
  is represented by the text JavaScript prints for it (\<^verbatim>\<open>String(n)\<close>): the code under
  study only copies numbers, prints them and tests them for truthiness.
\<close>

datatype json =
    JNull
  | JBool bool
  | JNumber string
  | JString string
  | JArray "json list"
  | JObject "(string \<times> json) list"

section \<open>Gemini contents (src/models/gemini.ts)\<close>

text \<open>
  \<^verbatim>\<open>GeminiPart\<close> is the union of the four part interfaces; an optional field is an
  \<open>option\<close>. \<^verbatim>\<open>"functionCall" in part\<close> is the test for the third constructor.
  The arguments of a function call are optional in the model because both response
  paths defend against their absence (\<^verbatim>\<open>args ?? {}\<close>).
\<close>

datatype gemini_part =
    TextPart string "bool option" "string option"
  | InlineDataPart string string "string option"
  | FunctionCallPart string "json option" "string option"
  | FunctionResponsePart string json

datatype gemini_role = RUser | RModel

record gemini_content =
  role :: gemini_role
  parts :: "gemini_part list"

fun is_functionCall :: "gemini_part \<Rightarrow> bool" where
  "is_functionCall (FunctionCallPart n a s) = True"
| "is_functionCall p = False"

fun is_functionResponse :: "gemini_part \<Rightarrow> bool" where
  "is_functionResponse (FunctionResponsePart n r) = True"
| "is_functionResponse p = False"

text \<open>The \<^verbatim>\<open>thoughtSignature\<close> field of a part, \<open>None\<close> when it is absent.\<close>

fun thoughtSignature :: "gemini_part \<Rightarrow> string option" where
  "thoughtSignature (TextPart t th s) = s"
| "thoughtSignature (InlineDataPart m d s) = s"
| "thoughtSignature (FunctionCallPart n a s) = s"
| "thoughtSignature (FunctionResponsePart n r) = None"

text \<open>The assignment \<^verbatim>\<open>part.thoughtSignature = s\<close>; the code performs it on
  function-call parts only.\<close>

fun set_thoughtSignature :: "gemini_part \<Rightarrow> string \<Rightarrow> gemini_part" where
  "set_thoughtSignature (TextPart t th s0) s = TextPart t th (Some s)"
| "set_thoughtSignature (InlineDataPart m d s0) s = InlineDataPart m d (Some s)"
| "set_thoughtSignature (FunctionCallPart n a s0) s = FunctionCallPart n a (Some s)"
| "set_thoughtSignature (FunctionResponsePart n r) s = FunctionResponsePart n r"

text \<open>JavaScript truthiness of a \<^verbatim>\<open>string | undefined\<close>: absent and empty are falsy.\<close>

fun truthy_string :: "string option \<Rightarrow> bool" where
  "truthy_string None = False"
| "truthy_string (Some s) = (s \<noteq> [])"

section \<open>The signature ledger (src/services/thought-signature.ts)\<close>

text \<open>
  The service holds a \<^verbatim>\<open>Map\<close> keyed by the string \<^verbatim>\<open>`${turnIndex}:${partIndex}`\<close> and the
  last text signature. The key text is an injective encoding of the pair of indices, so
  the model keys the map by the pair.
\<close>

record ledger =
  sig_store :: "(nat \<times> nat) \<rightharpoonup> string"
  lastTextSignature :: "string option"

definition new_ledger :: ledger where
  "new_ledger = \<lparr>sig_store = Map.empty, lastTextSignature = None\<rparr>"

definition DUMMY_THOUGHT_SIGNATURE :: string where
  "DUMMY_THOUGHT_SIGNATURE = ''skip_thought_signature_validator''"

definition store_signature :: "nat \<Rightarrow> nat \<Rightarrow> string \<Rightarrow> ledger \<Rightarrow> ledger" where
  "store_signature turnIndex partIndex signature L =
     L\<lparr>sig_store := (sig_store L)((turnIndex, partIndex) \<mapsto> signature)\<rparr>"

definition storeTextSignature :: "string \<Rightarrow> ledger \<Rightarrow> ledger" where
  "storeTextSignature signature L = L\<lparr>lastTextSignature := Some signature\<rparr>"

definition getSignature :: "ledger \<Rightarrow> nat \<Rightarrow> nat \<Rightarrow> string option" where
  "getSignature L turnIndex partIndex = sig_store L (turnIndex, partIndex)"

definition getLastTextSignature :: "ledger \<Rightarrow> string option" where
  "getLastTextSignature L = lastTextSignature L"

definition clear :: "ledger \<Rightarrow> ledger" where
  "clear L = L\<lparr>sig_store := Map.empty, lastTextSignature := None\<rparr>"

text \<open>\<^verbatim>\<open>stored ?? DUMMY_THOUGHT_SIGNATURE\<close>.\<close>

definition stored_or_dummy :: "ledger \<Rightarrow> nat \<Rightarrow> nat \<Rightarrow> string" where
  "stored_or_dummy L t p =
     (case getSignature L t p of Some stored \<Rightarrow> stored | None \<Rightarrow> DUMMY_THOUGHT_SIGNATURE)"

text \<open>
  \<^verbatim>\<open>ensureSignatures\<close> mutates the contents array in place and returns it; the model
  returns the array as it is after the call. \<open>ensure_parts\<close> is the inner loop over the
  parts of turn \<open>t\<close>, from part index \<open>p\<close>, with the flag \<^verbatim>\<open>firstFCFound\<close>;
  \<open>ensure_turns\<close> is the outer loop from turn index \<open>t\<close>.
\<close>

fun ensure_parts :: "ledger \<Rightarrow> nat \<Rightarrow> nat \<Rightarrow> bool \<Rightarrow> gemini_part list \<Rightarrow> gemini_part list" where
  "ensure_parts L t p firstFCFound [] = []"
| "ensure_parts L t p firstFCFound (part # rest) =
     (if is_functionCall part then
        (if \<not> firstFCFound then
           (if \<not> truthy_string (thoughtSignature part)
            then set_thoughtSignature part (stored_or_dummy L t p)
            else part) # ensure_parts L t (Suc p) True rest
         else part # ensure_parts L t (Suc p) firstFCFound rest)
      else part # ensure_parts L t (Suc p) firstFCFound rest)"

fun ensure_turns :: "ledger \<Rightarrow> nat \<Rightarrow> gemini_content list \<Rightarrow> gemini_content list" where
  "ensure_turns L t [] = []"
| "ensure_turns L t (turn # rest) =
     (if role turn \<noteq> RModel then turn
      else turn\<lparr>parts := ensure_parts L t 0 False (parts turn)\<rparr>) # ensure_turns L (Suc t) rest"

definition ensureSignatures :: "ledger \<Rightarrow> gemini_content list \<Rightarrow> bool \<Rightarrow> gemini_content list" where
  "ensureSignatures L contents isGemini3 =
     (if \<not> isGemini3 then contents else ensure_turns L 0 contents)"

text \<open>
  \<^verbatim>\<open>extractFromContents\<close>: every truthy signature of a model turn is stored at its
  position; a signature on a text part also becomes the last text signature.
\<close>

fun is_text :: "gemini_part \<Rightarrow> bool" where
  "is_text (TextPart t th s) = True"
| "is_text p = False"

fun extract_parts :: "nat \<Rightarrow> nat \<Rightarrow> gemini_part list \<Rightarrow> ledger \<Rightarrow> ledger" where
  "extract_parts t p [] L = L"
| "extract_parts t p (part # rest) L =
     (case thoughtSignature part of
        None \<Rightarrow> extract_parts t (Suc p) rest L
      | Some signature \<Rightarrow>
          (if signature = [] then extract_parts t (Suc p) rest L
           else
             (let L1 = store_signature t p signature L;
                  L2 = (if is_text part \<and> \<not> is_functionCall part
                        then storeTextSignature signature L1 else L1)
              in extract_parts t (Suc p) rest L2)))"

fun extract_turns :: "nat \<Rightarrow> gemini_content list \<Rightarrow> ledger \<Rightarrow> ledger" where
  "extract_turns t [] L = L"
| "extract_turns t (turn # rest) L =
     (if role turn \<noteq> RModel then extract_turns (Suc t) rest L
      else extract_turns (Suc t) rest (extract_parts t 0 (parts turn) L))"

definition extractFromContents :: "gemini_content list \<Rightarrow> ledger \<Rightarrow> ledger" where
  "extractFromContents contents L = extract_turns 0 contents L"

text \<open>The positions of the function-call parts of a turn, in order.\<close>

definition fc_indices :: "gemini_part list \<Rightarrow> nat list" where
  "fc_indices ps = filter (\<lambda>i. is_functionCall (ps ! i)) [0..<length ps]"

text \<open>
  The property "exactly the first function call of the turn at index \<open>t\<close> carries a
  signature, the ledger's token for its position or the sentinel, and no later function
  call carries one".
\<close>

definition only_first_fc_signed :: "ledger \<Rightarrow> nat \<Rightarrow> gemini_part list \<Rightarrow> bool" where
  "only_first_fc_signed L t ps =
     (case fc_indices ps of
        [] \<Rightarrow> True
      | i # later \<Rightarrow>
          thoughtSignature (ps ! i) = Some (stored_or_dummy L t i) \<and>
          list_all (\<lambda>j. thoughtSignature (ps ! j) = None) later)"

section \<open>Anthropic messages (src/models/anthropic.ts)\<close>

text \<open>
  The content blocks of a request message. \<open>OtherParam\<close> stands for a block whose
  \<^verbatim>\<open>type\<close> is none of the four the converter's \<^verbatim>\<open>switch\<close> names (its tag is kept); the
  switch has no default branch and skips such a block.
\<close>

datatype image_source = Base64Source string string | UrlSource string

datatype content_block_param =
    TextParam string
  | ImageParam image_source
  | ToolUseParam string string json
  | ToolResultParam string "tool_result_content option" "bool option"
  | OtherParam string
and tool_result_content =
    ResultText string
  | ResultBlocks "content_block_param list"

datatype message_content = StringContent string | BlockContent "content_block_param list"

datatype anthropic_role = User | Assistant

record anthropic_message =
  msg_role :: anthropic_role
  msg_content :: message_content

text \<open>The content blocks of a response, and the stop reasons.\<close>

datatype content_block =
    TextBlock string
  | ToolUseBlock string string json
  | ThinkingBlock string "string option"
  | RedactedThinkingBlock string

datatype stop_reason = EndTurn | MaxTokens | StopSequence | ToolUse

record anthropic_usage =
  input_tokens :: nat
  output_tokens :: nat

record anthropic_response =
  resp_content :: "content_block list"
  resp_stop_reason :: stop_reason
  resp_usage :: anthropic_usage

section \<open>Model capabilities (src/models/config.ts)\<close>

datatype thinking_level = MINIMAL | LOW | MEDIUM | HIGH

record model_capabilities =
  geminiModel :: string
  supportsThinking :: bool
  isGemini3 :: bool
  defaultThinkingLevel :: "thinking_level option"
  maxOutputTokens :: nat

section \<open>Request conversion (src/converters/request-converter.ts)\<close>

text \<open>\<^verbatim>\<open>Array.prototype.join\<close> on strings.\<close>

fun join :: "string \<Rightarrow> string list \<Rightarrow> string" where
  "join sep [] = []"
| "join sep [x] = x"
| "join sep (x # y # ys) = x @ sep @ join sep (y # ys)"

fun param_text :: "content_block_param \<Rightarrow> string list" where
  "param_text (TextParam t) = [t]"
| "param_text b = []"

text \<open>
  \<^verbatim>\<open>extractToolResultText\<close>: a falsy content (absent or the empty string) gives the
  empty string, a string is returned as it is, and of an array the texts of its text
  blocks are joined by a line feed.
\<close>

definition extractToolResultText :: "tool_result_content option \<Rightarrow> string" where
  "extractToolResultText c =
     (case c of
        None \<Rightarrow> []
      | Some (ResultText s) \<Rightarrow> s
      | Some (ResultBlocks bs) \<Rightarrow> join [CHR 0x0A] (concat (map param_text bs)))"

text \<open>
  The converter's \<^verbatim>\<open>toolNameMap\<close>. \<^verbatim>\<open>buildToolNameMap\<close> clears it and scans every
  block of every message whose content is an array; a later \<^verbatim>\<open>tool_use\<close> block with
  the same id overwrites an earlier one.
\<close>

type_synonym tool_names = "string \<rightharpoonup> string"

fun scan_blocks :: "content_block_param list \<Rightarrow> tool_names \<Rightarrow> tool_names" where
  "scan_blocks [] m = m"
| "scan_blocks (ToolUseParam tid name inp # rest) m = scan_blocks rest (m(tid \<mapsto> name))"
| "scan_blocks (b # rest) m = scan_blocks rest m"

fun scan_messages :: "anthropic_message list \<Rightarrow> tool_names \<Rightarrow> tool_names" where
  "scan_messages [] m = m"
| "scan_messages (msg # rest) m =
     (case msg_content msg of
        StringContent s \<Rightarrow> scan_messages rest m
      | BlockContent bs \<Rightarrow> scan_messages rest (scan_blocks bs m))"

definition buildToolNameMap :: "anthropic_message list \<Rightarrow> tool_names" where
  "buildToolNameMap messages = scan_messages messages Map.empty"

text \<open>\<^verbatim>\<open>this.toolNameMap.get(toolUseId) ?? toolUseId\<close>.\<close>

definition resolveToolName :: "tool_names \<Rightarrow> string \<Rightarrow> string" where
  "resolveToolName m toolUseId = (case m toolUseId of Some name \<Rightarrow> name | None \<Rightarrow> toolUseId)"

text \<open>The payload \<^verbatim>\<open>{ error: text }\<close> or \<^verbatim>\<open>{ result: text }\<close> of a function response.\<close>

definition responseData :: "tool_result_content option \<Rightarrow> bool option \<Rightarrow> json" where
  "responseData c is_error =
     (if is_error = Some True then JObject [(''error'', JString (extractToolResultText c))]
      else JObject [(''result'', JString (extractToolResultText c))])"

definition convertToolResult ::
  "tool_names \<Rightarrow> string \<Rightarrow> tool_result_content option \<Rightarrow> bool option \<Rightarrow> gemini_content" where
  "convertToolResult m tool_use_id c is_error =
     \<lparr>role = RUser,
      parts = [FunctionResponsePart (resolveToolName m tool_use_id) (responseData c is_error)]\<rparr>"

fun convertImageBlock :: "image_source \<Rightarrow> gemini_part" where
  "convertImageBlock (Base64Source media_type image_data) = InlineDataPart media_type image_data None"
| "convertImageBlock (UrlSource url) = TextPart (''[Image: '' @ url @ '']'') None None"

text \<open>The three accumulators of \<^verbatim>\<open>convertSingleMessage\<close> and one round of its loop.\<close>

record block_acc =
  textAndImageParts :: "gemini_part list"
  toolUseParts :: "gemini_part list"
  toolResultContents :: "gemini_content list"

fun convert_block ::
  "tool_names \<Rightarrow> model_capabilities \<Rightarrow> gemini_role \<Rightarrow> content_block_param \<Rightarrow> block_acc \<Rightarrow> block_acc" where
  "convert_block m caps r (TextParam t) acc =
     acc\<lparr>textAndImageParts := textAndImageParts acc @ [TextPart t None None]\<rparr>"
| "convert_block m caps r (ImageParam src) acc =
     acc\<lparr>textAndImageParts := textAndImageParts acc @ [convertImageBlock src]\<rparr>"
| "convert_block m caps r (ToolUseParam tid name inp) acc =
     acc\<lparr>toolUseParts := toolUseParts acc @
        [FunctionCallPart name (Some inp)
           (if r = RModel \<and> isGemini3 caps \<and> toolUseParts acc = []
            then Some DUMMY_THOUGHT_SIGNATURE else None)]\<rparr>"
| "convert_block m caps r (ToolResultParam tid c is_error) acc =
     acc\<lparr>toolResultContents := toolResultContents acc @ [convertToolResult m tid c is_error]\<rparr>"
| "convert_block m caps r (OtherParam ty) acc = acc"

definition convertSingleMessage ::
  "tool_names \<Rightarrow> model_capabilities \<Rightarrow> anthropic_message \<Rightarrow> gemini_content list" where
  "convertSingleMessage m caps message =
     (let r = (if msg_role message = Assistant then RModel else RUser) in
      case msg_content message of
        StringContent s \<Rightarrow> [\<lparr>role = r, parts = [TextPart s None None]\<rparr>]
      | BlockContent blocks \<Rightarrow>
          (let acc = fold (convert_block m caps r) blocks
                       \<lparr>textAndImageParts = [], toolUseParts = [], toolResultContents = []\<rparr>;
               results =
                 (if r = RModel then
                    (let allParts = textAndImageParts acc @ toolUseParts acc in
                     if allParts \<noteq> [] then [\<lparr>role = RModel, parts = allParts\<rparr>] else [])
                  else
                    (if textAndImageParts acc \<noteq> []
                     then [\<lparr>role = RUser, parts = textAndImageParts acc\<rparr>] else [])
                    @ toolResultContents acc)
           in if results = [] then [\<lparr>role = r, parts = [TextPart [] None None]\<rparr>] else results))"

text \<open>
  \<^verbatim>\<open>convertMessages\<close>: the converted messages in order, then the signature pass over
  the whole list for a Gemini 3 model.
\<close>

definition convertMessages ::
  "tool_names \<Rightarrow> ledger \<Rightarrow> model_capabilities \<Rightarrow> anthropic_message list \<Rightarrow> gemini_content list" where
  "convertMessages m L caps messages =
     (let contents = concat (map (convertSingleMessage m caps) messages) in
      if isGemini3 caps then ensureSignatures L contents True else contents)"

text \<open>
  What the properties of the request converter speak about: the \<^verbatim>\<open>tool_use\<close> blocks of
  a history as pairs of id and name in order of appearance, and the text/image and
  \<^verbatim>\<open>tool_result\<close> blocks of one message.
\<close>

fun tool_use_of :: "content_block_param \<Rightarrow> (string \<times> string) list" where
  "tool_use_of (ToolUseParam tid name inp) = [(tid, name)]"
| "tool_use_of b = []"

definition tool_uses :: "anthropic_message list \<Rightarrow> (string \<times> string) list" where
  "tool_uses messages =
     concat (map (\<lambda>msg. case msg_content msg of
                           StringContent s \<Rightarrow> []
                         | BlockContent bs \<Rightarrow> concat (map tool_use_of bs)) messages)"

fun text_image_part :: "content_block_param \<Rightarrow> gemini_part list" where
  "text_image_part (TextParam t) = [TextPart t None None]"
| "text_image_part (ImageParam src) = [convertImageBlock src]"
| "text_image_part b = []"

definition text_image_parts :: "content_block_param list \<Rightarrow> gemini_part list" where
  "text_image_parts blocks = concat (map text_image_part blocks)"

fun tool_result_of ::
  "content_block_param \<Rightarrow> (string \<times> tool_result_content option \<times> bool option) list" where
  "tool_result_of (ToolResultParam tid c is_error) = [(tid, c, is_error)]"
| "tool_result_of b = []"

definition tool_results ::
  "content_block_param list \<Rightarrow> (string \<times> tool_result_content option \<times> bool option) list" where
  "tool_results blocks = concat (map tool_result_of blocks)"

fun is_text_or_image :: "content_block_param \<Rightarrow> bool" where
  "is_text_or_image (TextParam t) = True"
| "is_text_or_image (ImageParam src) = True"
| "is_text_or_image b = False"

fun is_tool_result :: "content_block_param \<Rightarrow> bool" where
  "is_tool_result (ToolResultParam tid c is_error) = True"
| "is_tool_result b = False"

text \<open>The turn that answers one tool result: a single function response under the
  resolved name.\<close>

definition function_response_turn ::
  "tool_names \<Rightarrow> string \<times> tool_result_content option \<times> bool option \<Rightarrow> gemini_content" where
  "function_response_turn m r =
     (case r of (tid, c, is_error) \<Rightarrow>
        \<lparr>role = RUser,
         parts = [FunctionResponsePart (resolveToolName m tid) (responseData c is_error)]\<rparr>)"

section \<open>Response conversion (src/converters/response-converter.ts)\<close>

datatype finish_reason = FINISH_REASON_UNSPECIFIED | STOP | MAX_TOKENS | SAFETY | RECITATION | OTHER

record usage_metadata =
  promptTokenCount :: "nat option"
  candidatesTokenCount :: "nat option"
  totalTokenCount :: "nat option"
  thoughtsTokenCount :: "nat option"

record gemini_candidate =
  cand_content :: "gemini_content option"
  finishReason :: "finish_reason option"

record gemini_response =
  candidates :: "gemini_candidate list option"
  usageMetadata :: "usage_metadata option"

text \<open>\<^verbatim>\<open>response.candidates?.[0]\<close>.\<close>

definition first_candidate :: "gemini_response \<Rightarrow> gemini_candidate option" where
  "first_candidate response =
     (case candidates response of None \<Rightarrow> None | Some [] \<Rightarrow> None | Some (c # cs) \<Rightarrow> Some c)"

text \<open>\<^verbatim>\<open>functionCall.args ?? {}\<close>.\<close>

fun args_or_empty :: "json option \<Rightarrow> json" where
  "args_or_empty None = JObject []"
| "args_or_empty (Some JNull) = JObject []"
| "args_or_empty (Some a) = a"

text \<open>
  The ids of \<^verbatim>\<open>generateToolUseId\<close> are random; the model draws them from a supply
  \<open>gen\<close>, the \<open>n\<close>-th call returning \<open>gen n\<close>. One round of the loop of
  \<^verbatim>\<open>convertParts\<close> takes the blocks so far, the ledger and the number of ids drawn.
\<close>

text \<open>\<^verbatim>\<open>if (sig) this.thoughtSignatures.storeTextSignature(sig)\<close>.\<close>

definition store_if_truthy :: "string option \<Rightarrow> ledger \<Rightarrow> ledger" where
  "store_if_truthy sig L =
     (case sig of
        None \<Rightarrow> L
      | Some s \<Rightarrow> if s = [] then L else storeTextSignature s L)"

fun convert_part ::
  "(nat \<Rightarrow> string) \<Rightarrow> gemini_part \<Rightarrow> content_block list \<times> ledger \<times> nat
     \<Rightarrow> content_block list \<times> ledger \<times> nat" where
  "convert_part gen (TextPart txt thought sig) (blocks, L, n) =
     (if txt = [] \<and> truthy_string sig then (blocks, store_if_truthy sig L, n)
      else
        (let blocks1 =
               (if thought = Some True
                then blocks @ [ThinkingBlock txt (Some (case sig of Some s \<Rightarrow> s | None \<Rightarrow> []))]
                else if txt \<noteq> [] then blocks @ [TextBlock txt] else blocks);
             L1 = store_if_truthy sig L
         in (blocks1, L1, n)))"
| "convert_part gen (FunctionCallPart name args sig) (blocks, L, n) =
     (blocks @ [ToolUseBlock (gen n) name (args_or_empty args)],
      store_if_truthy sig L,
      Suc n)"
| "convert_part gen p acc = acc"

definition convertParts ::
  "(nat \<Rightarrow> string) \<Rightarrow> gemini_part list \<Rightarrow> ledger \<Rightarrow> content_block list \<times> ledger" where
  "convertParts gen ps L =
     (case fold (convert_part gen) ps ([], L, 0) of
        (blocks, L1, n) \<Rightarrow> ((if blocks = [] then [TextBlock []] else blocks), L1))"

fun is_tool_use :: "content_block \<Rightarrow> bool" where
  "is_tool_use (ToolUseBlock tid name inp) = True"
| "is_tool_use b = False"

definition convertFinishReason :: "finish_reason option \<Rightarrow> content_block list \<Rightarrow> stop_reason" where
  "convertFinishReason reason blocks =
     (if list_ex is_tool_use blocks then ToolUse
      else case reason of
             Some STOP \<Rightarrow> EndTurn
           | Some MAX_TOKENS \<Rightarrow> MaxTokens
           | _ \<Rightarrow> EndTurn)"

definition or_zero :: "nat option \<Rightarrow> nat" where
  "or_zero x = (case x of Some n \<Rightarrow> n | None \<Rightarrow> 0)"

definition convertUsage :: "gemini_response \<Rightarrow> anthropic_usage" where
  "convertUsage response =
     (case usageMetadata response of
        None \<Rightarrow> \<lparr>input_tokens = 0, output_tokens = 0\<rparr>
      | Some meta \<Rightarrow>
          \<lparr>input_tokens = or_zero (promptTokenCount meta),
           output_tokens = or_zero (candidatesTokenCount meta) + or_zero (thoughtsTokenCount meta)\<rparr>)"

definition buildEmptyResponse :: anthropic_response where
  "buildEmptyResponse =
     \<lparr>resp_content = [TextBlock []], resp_stop_reason = EndTurn,
      resp_usage = \<lparr>input_tokens = 0, output_tokens = 0\<rparr>\<rparr>"

text \<open>
  \<^verbatim>\<open>convert\<close>, with the ledger after the call. The message id and the model name of the
  response are left out: no property below reads them.
\<close>

definition convert ::
  "(nat \<Rightarrow> string) \<Rightarrow> gemini_response \<Rightarrow> ledger \<Rightarrow> anthropic_response \<times> ledger" where
  "convert gen response L =
     (case first_candidate response of
        None \<Rightarrow> (buildEmptyResponse, L)
      | Some candidate \<Rightarrow>
          (case convertParts gen
                  (case cand_content candidate of None \<Rightarrow> [] | Some c \<Rightarrow> parts c) L of
             (blocks, L1) \<Rightarrow>
               (\<lparr>resp_content = blocks,
                 resp_stop_reason = convertFinishReason (finishReason candidate) blocks,
                 resp_usage = convertUsage response\<rparr>, L1)))"

text \<open>The finish reason of the first candidate, absent when there is no candidate.\<close>

definition upstream_finish_reason :: "gemini_response \<Rightarrow> finish_reason option" where
  "upstream_finish_reason response =
     (case first_candidate response of None \<Rightarrow> None | Some c \<Rightarrow> finishReason c)"

section \<open>Stream conversion (StreamConverter)\<close>

text \<open>
  The events of the outbound stream. The message id and the model name of
  \<^verbatim>\<open>message_start\<close> are left out; the event keeps the input tokens it reports. An
  \<^verbatim>\<open>input_json_delta\<close> carries the text \<^verbatim>\<open>JSON.stringify\<close> gives for a JSON value; the
  model keeps the value.
\<close>

datatype delta =
    TextDelta string
  | InputJsonDelta json
  | ThinkingDelta string
  | SignatureDelta string

datatype sse_event =
    MessageStart nat
  | Ping
  | ContentBlockStart nat content_block
  | ContentBlockDelta nat delta
  | ContentBlockStop nat
  | MessageDelta stop_reason nat
  | MessageStop
  | ErrorEvent string

datatype block_type = BText | BThinking | BToolUse

text \<open>
  The fields of the converter, the ledger it shares with the request converter, the number
  of tool-use ids drawn, and the controller of the outbound stream: the events enqueued so
  far and whether the stream was closed.
\<close>

record stream_state =
  blockIndex :: nat
  messageStarted :: bool
  currentBlockType :: "block_type option"
  currentThinkingSignature :: string
  hasEmittedToolUse :: bool
  inputTokens :: nat
  outputTokens :: nat
  signatures :: ledger
  idsDrawn :: nat
  queue :: "sse_event list"
  closed :: bool

definition new_stream :: "ledger \<Rightarrow> stream_state" where
  "new_stream L =
     \<lparr>blockIndex = 0, messageStarted = False, currentBlockType = None,
      currentThinkingSignature = [], hasEmittedToolUse = False,
      inputTokens = 0, outputTokens = 0, signatures = L, idsDrawn = 0,
      queue = [], closed = False\<rparr>"

definition emitEvent :: "sse_event \<Rightarrow> stream_state \<Rightarrow> stream_state" where
  "emitEvent ev st = st\<lparr>queue := queue st @ [ev]\<rparr>"

definition closeCurrentBlock :: "stream_state \<Rightarrow> stream_state" where
  "closeCurrentBlock st =
     (if currentBlockType st = None then st
      else
        (let st1 = (if currentBlockType st = Some BThinking \<and> currentThinkingSignature st \<noteq> []
                    then emitEvent (ContentBlockDelta (blockIndex st)
                                      (SignatureDelta (currentThinkingSignature st))) st
                    else st);
             st2 = emitEvent (ContentBlockStop (blockIndex st1)) st1
         in st2\<lparr>blockIndex := Suc (blockIndex st2), currentBlockType := None,
                currentThinkingSignature := []\<rparr>))"

definition handleTextDelta :: "string \<Rightarrow> stream_state \<Rightarrow> stream_state" where
  "handleTextDelta txt st =
     (let st1 = (if currentBlockType st \<noteq> Some BText then
                   (let st0 = closeCurrentBlock st in
                    (emitEvent (ContentBlockStart (blockIndex st0) (TextBlock [])) st0)
                      \<lparr>currentBlockType := Some BText\<rparr>)
                 else st)
      in emitEvent (ContentBlockDelta (blockIndex st1) (TextDelta txt)) st1)"

definition handleThinkingDelta :: "string \<Rightarrow> string option \<Rightarrow> stream_state \<Rightarrow> stream_state" where
  "handleThinkingDelta thinking signature st =
     (let st1 = (if currentBlockType st \<noteq> Some BThinking then
                   (let st0 = closeCurrentBlock st in
                    (emitEvent (ContentBlockStart (blockIndex st0) (ThinkingBlock [] None)) st0)
                      \<lparr>currentBlockType := Some BThinking, currentThinkingSignature := []\<rparr>)
                 else st);
          st2 = (case signature of
                   None \<Rightarrow> st1
                 | Some s \<Rightarrow> if s = [] then st1 else st1\<lparr>currentThinkingSignature := s\<rparr>)
      in if thinking \<noteq> []
         then emitEvent (ContentBlockDelta (blockIndex st2) (ThinkingDelta thinking)) st2
         else st2)"

definition handleToolUse ::
  "(nat \<Rightarrow> string) \<Rightarrow> string \<Rightarrow> json option \<Rightarrow> stream_state \<Rightarrow> stream_state" where
  "handleToolUse gen name args st =
     (let st0 = closeCurrentBlock st;
          toolUseId = gen (idsDrawn st0);
          st1 = st0\<lparr>idsDrawn := Suc (idsDrawn st0), hasEmittedToolUse := True\<rparr>;
          st2 = emitEvent (ContentBlockStart (blockIndex st1)
                             (ToolUseBlock toolUseId name (JObject []))) st1;
          st3 = emitEvent (ContentBlockDelta (blockIndex st2)
                             (InputJsonDelta (args_or_empty args))) st2;
          st4 = emitEvent (ContentBlockStop (blockIndex st3)) st3
      in st4\<lparr>blockIndex := Suc (blockIndex st4), currentBlockType := None\<rparr>)"

definition processPart :: "(nat \<Rightarrow> string) \<Rightarrow> gemini_part \<Rightarrow> stream_state \<Rightarrow> stream_state" where
  "processPart gen part st =
     (let sig = thoughtSignature part;
          st1 = st\<lparr>signatures := store_if_truthy sig (signatures st)\<rparr>
      in case part of
           TextPart txt thought s \<Rightarrow>
             (if txt = [] \<and> truthy_string sig then st1
              else if thought = Some True then handleThinkingDelta txt sig st1
              else if txt \<noteq> [] then handleTextDelta txt st1
              else st1)
         | FunctionCallPart name args s \<Rightarrow> handleToolUse gen name args st1
         | _ \<Rightarrow> st1)"

definition emitMessageStart :: "gemini_response \<Rightarrow> stream_state \<Rightarrow> stream_state" where
  "emitMessageStart chunk st =
     emitEvent Ping
       (emitEvent (MessageStart (case usageMetadata chunk of
                                   None \<Rightarrow> 0
                                 | Some u \<Rightarrow> or_zero (promptTokenCount u))) st)"

definition processChunk :: "(nat \<Rightarrow> string) \<Rightarrow> gemini_response \<Rightarrow> stream_state \<Rightarrow> stream_state" where
  "processChunk gen chunk st =
     (let st1 = (if \<not> messageStarted st
                 then (emitMessageStart chunk st)\<lparr>messageStarted := True\<rparr> else st);
          st2 = (case usageMetadata chunk of
                   None \<Rightarrow> st1
                 | Some u \<Rightarrow>
                     st1\<lparr>inputTokens :=
                            (case promptTokenCount u of Some n \<Rightarrow> n | None \<Rightarrow> inputTokens st1),
                          outputTokens :=
                            or_zero (candidatesTokenCount u) + or_zero (thoughtsTokenCount u)\<rparr>)
      in case first_candidate chunk of
           None \<Rightarrow> st2
         | Some candidate \<Rightarrow>
             (case cand_content candidate of
                None \<Rightarrow> st2
              | Some c \<Rightarrow> fold (processPart gen) (parts c) st2))"

definition emitMessageEnd :: "stream_state \<Rightarrow> stream_state" where
  "emitMessageEnd st =
     (let st1 = (if blockIndex st = 0 \<and> \<not> messageStarted st then
                   emitEvent (ContentBlockStop 0)
                     (emitEvent (ContentBlockStart 0 (TextBlock []))
                        (emitMessageStart
                           \<lparr>candidates = Some [],
                            usageMetadata = Some \<lparr>promptTokenCount = Some 0,
                              candidatesTokenCount = Some 0, totalTokenCount = Some 0,
                              thoughtsTokenCount = None\<rparr>\<rparr> st))
                 else st);
          stopReason = (if hasEmittedToolUse st1 then ToolUse else EndTurn)
      in emitEvent MessageStop (emitEvent (MessageDelta stopReason (outputTokens st1)) st1))"

text \<open>
  \<^verbatim>\<open>processBufferedJson\<close>. A JSON candidate is a piece of text that reaches
  \<^verbatim>\<open>JSON.parse\<close>, given here by what \<^verbatim>\<open>JSON.parse\<close> does on it: it returns a chunk, or it
  throws a \<^verbatim>\<open>SyntaxError\<close> with a message. The \<^verbatim>\<open>try\<close> of \<^verbatim>\<open>processBufferedJson\<close>
  holds the parse and the call of \<^verbatim>\<open>processChunk\<close>; its \<^verbatim>\<open>catch\<close> is empty, so a candidate
  that does not parse leaves the converter as it was.
\<close>

datatype json_text = Parses gemini_response | SyntaxError string

definition processBufferedJson ::
  "(nat \<Rightarrow> string) \<Rightarrow> json_text \<Rightarrow> stream_state \<Rightarrow> stream_state" where
  "processBufferedJson gen jsonStr st =
     (case jsonStr of
        Parses chunk \<Rightarrow> processChunk gen chunk st
      | SyntaxError message \<Rightarrow> st)"

text \<open>
  \<^verbatim>\<open>convertStream\<close>. The model stands above the framing of the upstream body: what
  \<^verbatim>\<open>reader.read()\<close> gives is either a failure (the promise rejects, with the message of
  the error) or bytes, and of the bytes the model keeps the JSON candidates that
  \<^verbatim>\<open>processBuffer\<close> hands to \<^verbatim>\<open>processBufferedJson\<close> from the buffer after that read, in
  order. \<open>flush\<close> is the candidate made of the buffer that remains when the body ends, if
  that remainder is not blank. The body of \<^verbatim>\<open>pull\<close> is a \<^verbatim>\<open>try\<close> around the read loop;
  its \<^verbatim>\<open>catch\<close> is the branch of \<open>ReadFailure\<close>.
\<close>

datatype upstream_read = ReadChunks "json_text list" | ReadFailure string

fun pull ::
  "(nat \<Rightarrow> string) \<Rightarrow> upstream_read list \<Rightarrow> json_text option \<Rightarrow> stream_state \<Rightarrow> stream_state" where
  "pull gen [] flush st =
     (let st1 = (case flush of None \<Rightarrow> st | Some jsonStr \<Rightarrow> processBufferedJson gen jsonStr st);
          st2 = closeCurrentBlock st1;
          st3 = emitMessageEnd st2
      in st3\<lparr>closed := True\<rparr>)"
| "pull gen (ReadChunks jsonStrs # rest) flush st =
     pull gen rest flush (fold (processBufferedJson gen) jsonStrs st)"
| "pull gen (ReadFailure message # rest) flush st =
     (emitEvent (ErrorEvent message) st)\<lparr>closed := True\<rparr>"

definition convertStream ::
  "(nat \<Rightarrow> string) \<Rightarrow> ledger \<Rightarrow> upstream_read list \<Rightarrow> json_text option \<Rightarrow> stream_state" where
  "convertStream gen L reads flush = pull gen reads flush (new_stream L)"

text \<open>What \<^verbatim>\<open>pull\<close> does once the body has ended and the buffer was flushed.\<close>

definition end_of_stream :: "stream_state \<Rightarrow> stream_state" where
  "end_of_stream st = (emitMessageEnd (closeCurrentBlock st))\<lparr>closed := True\<rparr>"

text \<open>
  The grammar of the outbound stream as an automaton over the events. \<open>may_be_empty\<close>
  says which opened blocks may be closed without a delta; with \<open>\<lambda>b. False\<close> the
  automaton accepts \<^verbatim>\<open>message_start, ping, (content_block_start, content_block_delta+,
  content_block_stop)*, message_delta, message_stop\<close>, where the blocks carry the indices
  0, 1, 2, ... in order.
\<close>

datatype grammar_state =
    GInit
  | GStarted
  | GIdle nat
  | GOpen nat bool
  | GEnding
  | GDone

fun grammar_step ::
  "(content_block \<Rightarrow> bool) \<Rightarrow> grammar_state \<Rightarrow> sse_event \<Rightarrow> grammar_state option" where
  "grammar_step may_be_empty GInit (MessageStart n) = Some GStarted"
| "grammar_step may_be_empty GStarted Ping = Some (GIdle 0)"
| "grammar_step may_be_empty (GIdle i) (ContentBlockStart j b) =
     (if j = i then Some (GOpen i (may_be_empty b)) else None)"
| "grammar_step may_be_empty (GOpen i may_stop) (ContentBlockDelta j d) =
     (if j = i then Some (GOpen i True) else None)"
| "grammar_step may_be_empty (GOpen i may_stop) (ContentBlockStop j) =
     (if j = i \<and> may_stop then Some (GIdle (Suc i)) else None)"
| "grammar_step may_be_empty (GIdle i) (MessageDelta r n) = Some GEnding"
| "grammar_step may_be_empty GEnding MessageStop = Some GDone"
| "grammar_step may_be_empty g ev = None"

fun grammar_run ::
  "(content_block \<Rightarrow> bool) \<Rightarrow> grammar_state \<Rightarrow> sse_event list \<Rightarrow> grammar_state option" where
  "grammar_run may_be_empty g [] = Some g"
| "grammar_run may_be_empty g (ev # evs) =
     (case grammar_step may_be_empty g ev of
        None \<Rightarrow> None
      | Some g1 \<Rightarrow> grammar_run may_be_empty g1 evs)"

definition stream_grammar :: "(content_block \<Rightarrow> bool) \<Rightarrow> sse_event list \<Rightarrow> bool" where
  "stream_grammar may_be_empty evs = (grammar_run may_be_empty GInit evs = Some GDone)"

fun is_thinking_block :: "content_block \<Rightarrow> bool" where
  "is_thinking_block (ThinkingBlock t s) = True"
| "is_thinking_block b = False"

fun is_read_failure :: "upstream_read \<Rightarrow> bool" where
  "is_read_failure (ReadFailure message) = True"
| "is_read_failure r = False"

text \<open>The chunks a body without failure delivers, in order: those of the candidates that
  parse.\<close>

fun parsed :: "json_text \<Rightarrow> gemini_response list" where
  "parsed (Parses chunk) = [chunk]"
| "parsed (SyntaxError message) = []"

fun chunks_of_read :: "upstream_read \<Rightarrow> gemini_response list" where
  "chunks_of_read (ReadChunks jsonStrs) = concat (map parsed jsonStrs)"
| "chunks_of_read (ReadFailure message) = []"

definition all_chunks :: "upstream_read list \<Rightarrow> json_text option \<Rightarrow> gemini_response list" where
  "all_chunks reads flush =
     concat (map chunks_of_read reads) @ (case flush of None \<Rightarrow> [] | Some jsonStr \<Rightarrow> parsed jsonStr)"

fun is_tool_use_start :: "sse_event \<Rightarrow> bool" where
  "is_tool_use_start (ContentBlockStart i (ToolUseBlock tid name inp)) = True"
| "is_tool_use_start ev = False"

fun is_error_event :: "sse_event \<Rightarrow> bool" where
  "is_error_event (ErrorEvent message) = True"
| "is_error_event ev = False"

section \<open>Schema sanitisation (RequestConverter.sanitizeSchema)\<close>

text \<open>
  Property access on an object: the first entry of that name. \<open>obj_set\<close> is the
  assignment \<^verbatim>\<open>o[key] = value\<close>: it replaces the value of a property the object has, in
  place, and appends the property otherwise.
\<close>

fun obj_get :: "(string \<times> json) list \<Rightarrow> string \<Rightarrow> json option" where
  "obj_get [] key = None"
| "obj_get ((k, v) # rest) key = (if k = key then Some v else obj_get rest key)"

fun obj_set :: "(string \<times> json) list \<Rightarrow> string \<Rightarrow> json \<Rightarrow> (string \<times> json) list" where
  "obj_set [] key value = [(key, value)]"
| "obj_set ((k, v) # rest) key value =
     (if k = key then (k, value) # rest else (k, v) # obj_set rest key value)"

text \<open>
  \<^verbatim>\<open>props[propName] = ...\<close> on the fresh object \<^verbatim>\<open>props\<close>: for the name
  \<^verbatim>\<open>__proto__\<close> the assignment runs the setter of \<^verbatim>\<open>Object.prototype\<close> and creates no
  property.
\<close>

definition set_property :: "(string \<times> json) list \<Rightarrow> string \<Rightarrow> json \<Rightarrow> (string \<times> json) list" where
  "set_property props name value = (if name = ''__proto__'' then props else obj_set props name value)"

definition ALLOWED_SCHEMA_KEYS :: "string list" where
  "ALLOWED_SCHEMA_KEYS =
     [''type'', ''description'', ''properties'', ''items'', ''required'', ''enum'', ''format'',
      ''nullable'']"

text \<open>JavaScript truthiness, and \<^verbatim>\<open>value && typeof value === "object"\<close>.\<close>

fun js_truthy :: "json \<Rightarrow> bool" where
  "js_truthy JNull = False"
| "js_truthy (JBool b) = b"
| "js_truthy (JNumber n) = (n \<noteq> ''0'')"
| "js_truthy (JString s) = (s \<noteq> [])"
| "js_truthy (JArray xs) = True"
| "js_truthy (JObject kvs) = True"

fun is_object_value :: "json \<Rightarrow> bool" where
  "is_object_value (JArray xs) = True"
| "is_object_value (JObject kvs) = True"
| "is_object_value v = False"

datatype js_error = TypeError

text \<open>
  \<^verbatim>\<open>String(v)\<close>. An object prints as \<^verbatim>\<open>[object Object]\<close>, unless it has a property
  of its own named \<^verbatim>\<open>toString\<close>: a JSON value is not callable, the inherited
  \<^verbatim>\<open>valueOf\<close> returns the object, and the conversion throws a \<^verbatim>\<open>TypeError\<close>. An array
  prints its elements joined by commas, \<^verbatim>\<open>null\<close> as the empty text.
\<close>

fun js_String :: "json \<Rightarrow> string option" where
  "js_String JNull = Some ''null''"
| "js_String (JBool b) = Some (if b then ''true'' else ''false'')"
| "js_String (JNumber n) = Some n"
| "js_String (JString s) = Some s"
| "js_String (JObject kvs) =
     (if obj_get kvs ''toString'' \<noteq> None then None else Some ''[object Object]'')"
| "js_String (JArray xs) =
     map_option (join '','')
       (those (map (\<lambda>x. if x = JNull then Some [] else js_String x) xs))"

text \<open>Decimal text of an array index, for \<^verbatim>\<open>Object.entries\<close> of an array.\<close>

fun digit_char :: "nat \<Rightarrow> char" where
  "digit_char n = char_of (48 + n)"

fun index_key :: "nat \<Rightarrow> string" where
  "index_key n = (if n < 10 then [digit_char n] else index_key (n div 10) @ [digit_char (n mod 10)])"

text \<open>\<^verbatim>\<open>schema.anyOf ?? schema.oneOf ?? schema.allOf\<close>.\<close>

fun nullish :: "json option \<Rightarrow> bool" where
  "nullish None = True"
| "nullish (Some JNull) = True"
| "nullish (Some v) = False"

definition coalesce :: "json option \<Rightarrow> json option \<Rightarrow> json option" where
  "coalesce a b = (if nullish a then b else a)"

definition pick_alternatives :: "(string \<times> json) list \<Rightarrow> json option" where
  "pick_alternatives schema =
     coalesce (coalesce (obj_get schema ''anyOf'') (obj_get schema ''oneOf''))
       (obj_get schema ''allOf'')"

text \<open>
  The loop over the alternatives, with the state \<^verbatim>\<open>enumValues\<close>, \<^verbatim>\<open>canEnum\<close> and the
  object \<^verbatim>\<open>sanitized\<close>. An alternative that is an array is an object without the
  properties \<^verbatim>\<open>const\<close>, \<^verbatim>\<open>enum\<close> and \<^verbatim>\<open>type\<close>.
\<close>

fun own_properties :: "json \<Rightarrow> (string \<times> json) list" where
  "own_properties (JObject kvs) = kvs"
| "own_properties v = []"

fun is_array :: "json option \<Rightarrow> bool" where
  "is_array (Some (JArray xs)) = True"
| "is_array v = False"

fun array_elements :: "json option \<Rightarrow> json list" where
  "array_elements (Some (JArray xs)) = xs"
| "array_elements v = []"

fun scan_options ::
  "json list \<Rightarrow> json list \<times> bool \<times> (string \<times> json) list
     \<Rightarrow> js_error + json list \<times> bool \<times> (string \<times> json) list" where
  "scan_options [] state = Inr state"
| "scan_options (option # rest) (enumValues, canEnum, sanitized) =
     (if is_object_value option then
        (let opt = own_properties option in
         case obj_get opt ''const'' of
           Some c \<Rightarrow>
             (case js_String c of
                None \<Rightarrow> Inl TypeError
              | Some s \<Rightarrow> scan_options rest (enumValues @ [JString s], canEnum, sanitized))
         | None \<Rightarrow>
             (if is_array (obj_get opt ''enum'')
              then scan_options rest
                     (enumValues @ array_elements (obj_get opt ''enum''), canEnum, sanitized)
              else if obj_get opt ''type'' = Some (JString ''null'')
              then scan_options rest
                     (enumValues, canEnum, obj_set sanitized ''nullable'' (JBool True))
              else scan_options rest (enumValues, False, sanitized)))
      else scan_options rest (enumValues, canEnum, sanitized))"

definition truthy_property :: "(string \<times> json) list \<Rightarrow> string \<Rightarrow> bool" where
  "truthy_property obj key = (case obj_get obj key of None \<Rightarrow> False | Some v \<Rightarrow> js_truthy v)"

definition flatten_alternatives ::
  "(string \<times> json) list \<Rightarrow> (string \<times> json) list \<Rightarrow> js_error + (string \<times> json) list" where
  "flatten_alternatives schema sanitized =
     (case pick_alternatives schema of
        Some (JArray (a # alts)) \<Rightarrow>
          (case scan_options (a # alts) ([], True, sanitized) of
             Inl e \<Rightarrow> Inl e
           | Inr (enumValues, canEnum, sanitized1) \<Rightarrow>
               (if canEnum \<and> enumValues \<noteq> [] then
                  (let sanitized2 = obj_set sanitized1 ''enum'' (JArray enumValues) in
                   Inr (if \<not> truthy_property sanitized2 ''type''
                        then obj_set sanitized2 ''type'' (JString ''string'')
                        else sanitized2))
                else Inr sanitized1))
      | _ \<Rightarrow> Inr sanitized)"

text \<open>
  \<^verbatim>\<open>sanitizeSchema\<close>. The tests of the loop over \<^verbatim>\<open>Object.entries(schema)\<close> sort an
  entry into one of four kinds: stripped (the key is not allowed), the \<^verbatim>\<open>properties\<close>
  branch, the \<^verbatim>\<open>items\<close> branch, or copied as it is. \<open>copy_entries\<close> is that loop with
  the object \<^verbatim>\<open>sanitized\<close> built so far; \<open>copy_properties\<close> is the loop over the entries
  of an object under \<^verbatim>\<open>properties\<close> with the object \<^verbatim>\<open>props\<close> built so far, and
  \<open>copy_elements\<close> the same loop over the entries of an array, whose keys are its indices.
  A call returns \<open>Inl TypeError\<close> when the source throws.
\<close>

datatype entry_kind = Stripped | Properties | Items | Copied

definition entry_kind :: "string \<Rightarrow> json \<Rightarrow> entry_kind" where
  "entry_kind key value =
     (if key \<notin> set ALLOWED_SCHEMA_KEYS then Stripped
      else if key = ''properties'' \<and> is_object_value value then Properties
      else if key = ''items'' \<and> is_object_value value then Items
      else Copied)"

fun sanitizeSchema :: "json \<Rightarrow> js_error + json"
  and copy_entries ::
    "(string \<times> json) list \<Rightarrow> (string \<times> json) list \<Rightarrow> js_error + (string \<times> json) list"
  and copy_properties ::
    "(string \<times> json) list \<Rightarrow> (string \<times> json) list \<Rightarrow> js_error + (string \<times> json) list"
  and copy_elements ::
    "nat \<Rightarrow> json list \<Rightarrow> (string \<times> json) list \<Rightarrow> js_error + (string \<times> json) list"
where
  "sanitizeSchema (JObject schema) =
     (case copy_entries schema [] of
        Inl e \<Rightarrow> Inl e
      | Inr sanitized \<Rightarrow>
          (case flatten_alternatives schema sanitized of
             Inl e \<Rightarrow> Inl e
           | Inr result \<Rightarrow> Inr (JObject result)))"
| "sanitizeSchema JNull = Inr JNull"
| "sanitizeSchema (JBool b) = Inr (JBool b)"
| "sanitizeSchema (JNumber n) = Inr (JNumber n)"
| "sanitizeSchema (JString s) = Inr (JString s)"
| "sanitizeSchema (JArray xs) = Inr (JArray xs)"
| "copy_entries [] sanitized = Inr sanitized"
| "copy_entries ((key, value) # rest) sanitized =
     (case entry_kind key value of
        Stripped \<Rightarrow> copy_entries rest sanitized
      | Properties \<Rightarrow>
          (case (case value of
                   JObject ps \<Rightarrow> copy_properties ps []
                 | JArray xs \<Rightarrow> copy_elements 0 xs []
                 | _ \<Rightarrow> Inr []) of
             Inl e \<Rightarrow> Inl e
           | Inr props \<Rightarrow> copy_entries rest (obj_set sanitized ''properties'' (JObject props)))
      | Items \<Rightarrow>
          (case sanitizeSchema value of
             Inl e \<Rightarrow> Inl e
           | Inr item \<Rightarrow> copy_entries rest (obj_set sanitized ''items'' item))
      | Copied \<Rightarrow> copy_entries rest (obj_set sanitized key value))"
| "copy_properties [] props = Inr props"
| "copy_properties ((propName, propSchema) # rest) props =
     (case sanitizeSchema propSchema of
        Inl e \<Rightarrow> Inl e
      | Inr s \<Rightarrow> copy_properties rest (set_property props propName s))"
| "copy_elements i [] props = Inr props"
| "copy_elements i (propSchema # rest) props =
     (case sanitizeSchema propSchema of
        Inl e \<Rightarrow> Inl e
      | Inr s \<Rightarrow> copy_elements (Suc i) rest (set_property props (index_key i) s))"

text \<open>\<^verbatim>\<open>sanitize(sanitize(x))\<close>: an exception of the inner call leaves the outer one.\<close>

definition sanitize_twice :: "json \<Rightarrow> js_error + json" where
  "sanitize_twice x = (case sanitizeSchema x of Inl e \<Rightarrow> Inl e | Inr y \<Rightarrow> sanitizeSchema y)"

text \<open>
  The forms of an alternative: the literals it contributes (the text of its \<^verbatim>\<open>const\<close>, or
  the members of its \<^verbatim>\<open>enum\<close> array), whether it contributes any, whether it is the
  \<^verbatim>\<open>null\<close> type, and whether its \<^verbatim>\<open>const\<close> cannot be printed. \<open>flattens\<close> is the
  condition under which the node receives an \<^verbatim>\<open>enum\<close>.
\<close>

fun alternative_literals :: "json \<Rightarrow> json list" where
  "alternative_literals (JObject opt) =
     (case obj_get opt ''const'' of
        Some c \<Rightarrow> (case js_String c of Some s \<Rightarrow> [JString s] | None \<Rightarrow> [])
      | None \<Rightarrow> array_elements (obj_get opt ''enum''))"
| "alternative_literals v = []"

fun contributes_literals :: "json \<Rightarrow> bool" where
  "contributes_literals (JObject opt) =
     (obj_get opt ''const'' \<noteq> None \<or> is_array (obj_get opt ''enum''))"
| "contributes_literals v = False"

fun is_null_alternative :: "json \<Rightarrow> bool" where
  "is_null_alternative (JObject opt) =
     (obj_get opt ''const'' = None \<and> \<not> is_array (obj_get opt ''enum'') \<and>
      obj_get opt ''type'' = Some (JString ''null''))"
| "is_null_alternative v = False"

fun unprintable_const :: "json \<Rightarrow> bool" where
  "unprintable_const (JObject opt) =
     (case obj_get opt ''const'' of Some c \<Rightarrow> js_String c = None | None \<Rightarrow> False)"
| "unprintable_const v = False"

definition recognised :: "json \<Rightarrow> bool" where
  "recognised alt = (contributes_literals alt \<or> is_null_alternative alt)"

definition collected_literals :: "json list \<Rightarrow> json list" where
  "collected_literals alts = concat (map alternative_literals alts)"

definition flattens :: "json list \<Rightarrow> bool" where
  "flattens alts =
     (list_all (\<lambda>alt. is_object_value alt \<longrightarrow> recognised alt) alts \<and> collected_literals alts \<noteq> [])"

section \<open>Invariants\<close>

text \<open>
  The invariant of the stream converter between two handlers, once \<^verbatim>\<open>message_start\<close>
  was emitted: the events enqueued so far take the automaton (with thinking blocks allowed
  to be empty) to the state the fields of the converter describe, the flag
  \<^verbatim>\<open>hasEmittedToolUse\<close> says whether a tool-use block was opened, and no error event was
  enqueued.
\<close>

definition grammar_state_of :: "stream_state \<Rightarrow> grammar_state" where
  "grammar_state_of st =
     (case currentBlockType st of
        None \<Rightarrow> GIdle (blockIndex st)
      | Some k \<Rightarrow> GOpen (blockIndex st) True)"

definition stream_inv :: "stream_state \<Rightarrow> bool" where
  "stream_inv st =
     (messageStarted st \<and>
      grammar_run is_thinking_block GInit (queue st) = Some (grammar_state_of st) \<and>
      hasEmittedToolUse st = list_ex is_tool_use_start (queue st) \<and>
      \<not> list_ex is_error_event (queue st))"

definition stream_initial :: "stream_state \<Rightarrow> bool" where
  "stream_initial st =
     (\<not> messageStarted st \<and> queue st = [] \<and> blockIndex st = 0 \<and>
      currentBlockType st = None \<and> \<not> hasEmittedToolUse st)"

text \<open>The order in which the automaton that lets every block be empty simulates a stricter one:
  an open block of the stricter run may still be waiting for its first delta.\<close>

fun grammar_le :: "grammar_state \<Rightarrow> grammar_state \<Rightarrow> bool" where
  "grammar_le (GOpen i a) (GOpen j b) = (i = j \<and> (a \<longrightarrow> b))"
| "grammar_le g h = (g = h)"

text \<open>
  A value is fixed when sanitising returns it unchanged. The predicates below describe what
  the loops build: properties with distinct names whose values are fixed, and entries of
  allowed keys whose \<^verbatim>\<open>properties\<close> and \<^verbatim>\<open>items\<close> are of that shape.
\<close>

definition fixed :: "json \<Rightarrow> bool" where
  "fixed v = (sanitizeSchema v = Inr v)"

definition stable_props :: "(string \<times> json) list \<Rightarrow> bool" where
  "stable_props ps =
     (distinct (map fst ps) \<and> ''__proto__'' \<notin> set (map fst ps) \<and>
      list_all (\<lambda>e. fixed (snd e)) ps)"

definition stable_entry :: "string \<times> json \<Rightarrow> bool" where
  "stable_entry e =
     (case entry_kind (fst e) (snd e) of
        Stripped \<Rightarrow> False
      | Properties \<Rightarrow> (case snd e of JObject ps \<Rightarrow> stable_props ps | _ \<Rightarrow> False)
      | Items \<Rightarrow> fixed (snd e)
      | Copied \<Rightarrow> True)"

definition stable_object :: "(string \<times> json) list \<Rightarrow> bool" where
  "stable_object r = (distinct (map fst r) \<and> list_all stable_entry r)"

section \<open>Examples\<close>

text \<open>Histories for the signature pass: a user turn followed by a model turn with two
  parallel calls; two parallel calls without signatures; two parallel calls that both carry
  one.\<close>

definition frame_example :: "gemini_content list" where
  "frame_example =
     [\<lparr>role = RUser, parts = [TextPart ''run both'' None None]\<rparr>,
      \<lparr>role = RModel, parts = [TextPart ''ok'' None None,
                               FunctionCallPart ''tool_a'' (Some (JObject [])) None,
                               FunctionCallPart ''tool_b'' (Some (JObject [])) None]\<rparr>]"

definition parallel_calls :: "gemini_content list" where
  "parallel_calls =
     [\<lparr>role = RModel, parts = [FunctionCallPart ''tool_a'' (Some (JObject [])) None,
                               FunctionCallPart ''tool_b'' (Some (JObject [])) None]\<rparr>]"

definition signed_parallel_calls :: "gemini_content list" where
  "signed_parallel_calls =
     [\<lparr>role = RModel, parts = [FunctionCallPart ''tool_a'' (Some (JObject [])) (Some ''sig_a''),
                               FunctionCallPart ''tool_b'' (Some (JObject [])) (Some ''sig_b'')]\<rparr>]"

text \<open>A user message that mixes text with two tool results, a tool-name table, the
  capabilities of a Gemini 3 model, a history with one tool call and two tool results,
  one of them for an id no tool call declares, and a history whose assistant message
  holds a tool result beside the tool call it answers.\<close>

definition mixed_user_message :: anthropic_message where
  "mixed_user_message =
     \<lparr>msg_role = User,
      msg_content = BlockContent
        [ToolResultParam ''toolu_1'' (Some (ResultText ''42'')) None,
         TextParam ''and now?'',
         ToolResultParam ''toolu_2'' (Some (ResultText ''boom'')) (Some True)]\<rparr>"

definition two_tools :: tool_names where
  "two_tools = [''toolu_1'' \<mapsto> ''calc'']"

definition gemini3_caps :: model_capabilities where
  "gemini3_caps =
     \<lparr>geminiModel = ''gemini-3-flash-preview'', supportsThinking = True, isGemini3 = True,
      defaultThinkingLevel = Some HIGH, maxOutputTokens = 65536\<rparr>"

definition tool_history :: "anthropic_message list" where
  "tool_history =
     [\<lparr>msg_role = User, msg_content = StringContent ''compute''\<rparr>,
      \<lparr>msg_role = Assistant,
       msg_content = BlockContent [ToolUseParam ''toolu_1'' ''calc'' (JObject [])]\<rparr>,
      \<lparr>msg_role = User,
       msg_content = BlockContent
         [ToolResultParam ''toolu_1'' (Some (ResultText ''42'')) None,
          ToolResultParam ''toolu_9'' None None]\<rparr>]"

definition misplaced_tool_result :: "anthropic_message list" where
  "misplaced_tool_result =
     [\<lparr>msg_role = User, msg_content = StringContent ''compute''\<rparr>,
      \<lparr>msg_role = Assistant,
       msg_content = BlockContent
         [ToolUseParam ''toolu_1'' ''calc'' (JObject []),
          ToolResultParam ''toolu_1'' (Some (ResultText ''42'')) None]\<rparr>]"

text \<open>An id supply.\<close>

definition example_ids :: "nat \<Rightarrow> string" where
  "example_ids n = ''toolu_'' @ replicate n (CHR ''x'')"

text \<open>Chunks: one text part; one thinking part with empty text and no signature; one
  function call that carries a signature.\<close>

definition text_chunk :: "string \<Rightarrow> gemini_response" where
  "text_chunk t =
     \<lparr>candidates = Some [\<lparr>cand_content = Some \<lparr>role = RModel, parts = [TextPart t None None]\<rparr>,
                          finishReason = None\<rparr>],
      usageMetadata = None\<rparr>"

definition empty_thought_chunk :: gemini_response where
  "empty_thought_chunk =
     \<lparr>candidates = Some [\<lparr>cand_content = Some \<lparr>role = RModel,
                                                 parts = [TextPart [] (Some True) None]\<rparr>,
                          finishReason = None\<rparr>],
      usageMetadata = None\<rparr>"

definition call_chunk :: gemini_response where
  "call_chunk =
     \<lparr>candidates = Some [\<lparr>cand_content = Some \<lparr>role = RModel,
          parts = [FunctionCallPart ''get_weather'' (Some (JObject [(''city'', JString ''Oslo'')]))
                     (Some ''sig_A'')]\<rparr>,
        finishReason = Some STOP\<rparr>],
      usageMetadata = None\<rparr>"

text \<open>The model turn a later request replays for the call of \<open>call_chunk\<close>.\<close>

definition replayed_call :: "gemini_content list" where
  "replayed_call =
     [\<lparr>role = RModel,
       parts = [FunctionCallPart ''get_weather'' (Some (JObject [(''city'', JString ''Oslo'')])) None]\<rparr>]"

text \<open>Schemas: two string constants under \<^verbatim>\<open>anyOf\<close>; alternatives of every kind under
  a node with siblings to strip; a boolean schema among the alternatives; an empty
  \<^verbatim>\<open>anyOf\<close> beside a \<^verbatim>\<open>oneOf\<close>; a nested object schema.\<close>

definition colour_schema :: json where
  "colour_schema =
     JObject [(''anyOf'', JArray [JObject [(''type'', JString ''string''), (''const'', JString ''red'')],
                                   JObject [(''type'', JString ''string''), (''const'', JString ''blue'')]])]"

definition mixed_alternatives :: "json list" where
  "mixed_alternatives =
     [JObject [(''const'', JNumber ''1'')],
      JObject [(''enum'', JArray [JString ''a'', JString ''b''])],
      JObject [(''type'', JString ''null'')],
      JNumber ''5'']"

definition mixed_schema :: "(string \<times> json) list" where
  "mixed_schema =
     [(''title'', JString ''Choice''), (''description'', JString ''pick one''),
      (''anyOf'', JArray mixed_alternatives)]"

definition boolean_alternative_schema :: json where
  "boolean_alternative_schema =
     JObject [(''anyOf'', JArray [JObject [(''const'', JString ''a'')], JBool True])]"

definition shadowed_oneOf_schema :: json where
  "shadowed_oneOf_schema =
     JObject [(''anyOf'', JArray []), (''oneOf'', JArray [JObject [(''const'', JString ''a'')]])]"

definition nested_schema :: json where
  "nested_schema =
     JObject [(''type'', JString ''object''), (''additionalProperties'', JBool False),
              (''properties'',
                 JObject [(''colour'', colour_schema),
                          (''size'', JObject [(''type'', JString ''number''), (''minimum'', JNumber ''0'')])]),
              (''required'', JArray [JString ''colour''])]"


section \<open>Properties of the signature ledger\<close>

lemma ensure_parts_length: "length (ensure_parts L t p found ps) = length ps"
  by (induction ps arbitrary: p found) auto

lemma ensure_parts_nth:
  "q < length ps \<Longrightarrow>
   ensure_parts L t p found ps ! q =
     (if \<not> found \<and> is_functionCall (ps ! q) \<and> (\<forall>r<q. \<not> is_functionCall (ps ! r))
         \<and> \<not> truthy_string (thoughtSignature (ps ! q))
      then set_thoughtSignature (ps ! q) (stored_or_dummy L t (p + q)) else ps ! q)"
proof (induction ps arbitrary: p found q)
  case Nil
  then show ?case by simp
next
  case (Cons a ps)
  show ?case
  proof (cases q)
    case 0
    then show ?thesis by simp
  next
    case (Suc q')
    with Cons.prems have q': "q' < length ps" by simp
    have all_Suc: "\<And>P. (\<forall>r<Suc q'. P r) = (P 0 \<and> (\<forall>r<q'. P (Suc r)))"
      by (metis less_Suc_eq_0_disj)
    show ?thesis using Cons.IH[OF q'] Suc
      by (auto simp: all_Suc)
  qed
qed

lemma ensure_turns_length: "length (ensure_turns L t cs) = length cs"
  by (induction cs arbitrary: t) auto

lemma ensure_turns_nth:
  "k < length cs \<Longrightarrow>
   ensure_turns L t cs ! k =
     (if role (cs ! k) \<noteq> RModel then cs ! k
      else (cs ! k)\<lparr>parts := ensure_parts L (t + k) 0 False (parts (cs ! k))\<rparr>)"
proof (induction cs arbitrary: t k)
  case Nil
  then show ?case by simp
next
  case (Cons a cs)
  then show ?case by (cases k) auto
qed

lemma ensure_turns_append:
  "ensure_turns L t (xs @ ys) = ensure_turns L t xs @ ensure_turns L (t + length xs) ys"
  by (induction xs arbitrary: t) auto

lemma ensure_turns_user:
  "\<forall>c\<in>set cs. role c = RUser \<Longrightarrow> ensure_turns L t cs = cs"
  by (induction cs arbitrary: t) auto

lemma upt_split:
  assumes "[0..<n] = us @ i # vs"
  shows "us = [0..<i]" and "vs = [Suc i..<n]"
proof -
  have len: "length us < n" using arg_cong[OF assms, of length] by simp
  have "[0..<n] ! length us = i" using assms by (metis nth_append_length)
  with len have li: "length us = i" by simp
  with len have "i < n" by simp
  then have "[0..<n] = [0..<i] @ i # [Suc i..<n]"
    using upt_add_eq_append[of 0 i "n - i"] upt_conv_Cons[of i n] by simp
  with assms have "us @ i # vs = [0..<i] @ i # [Suc i..<n]" by simp
  with li show "us = [0..<i]" and "vs = [Suc i..<n]" by auto
qed

lemma fc_indices_Cons:
  assumes "fc_indices ps = i # later"
  shows "i < length ps" "is_functionCall (ps ! i)" "\<forall>r<i. \<not> is_functionCall (ps ! r)"
        "\<forall>j\<in>set later. i < j \<and> j < length ps \<and> is_functionCall (ps ! j)"
proof -
  from assms obtain us vs where
    upt: "[0..<length ps] = us @ i # vs" and
    us: "\<forall>u\<in>set us. \<not> is_functionCall (ps ! u)" and
    i: "is_functionCall (ps ! i)" and
    later: "later = filter (\<lambda>i. is_functionCall (ps ! i)) vs"
    unfolding fc_indices_def by (auto simp: filter_eq_Cons_iff)
  from upt have "i \<in> set [0..<length ps]" by simp
  then show "i < length ps" by simp
  show "is_functionCall (ps ! i)" by (rule i)
  from upt have us_eq: "us = [0..<i]" and vs_eq: "vs = [Suc i..<length ps]"
    by (rule upt_split)+
  show "\<forall>r<i. \<not> is_functionCall (ps ! r)" using us us_eq by simp
  show "\<forall>j\<in>set later. i < j \<and> j < length ps \<and> is_functionCall (ps ! j)"
    using later vs_eq by auto
qed

lemma is_functionCall_set [simp]:
  "is_functionCall (set_thoughtSignature part s) = is_functionCall part"
  by (cases part) auto

lemma thoughtSignature_set:
  "is_functionCall part \<Longrightarrow> thoughtSignature (set_thoughtSignature part s) = Some s"
  by (cases part) auto

lemma ensure_parts_is_functionCall:
  "q < length ps \<Longrightarrow> is_functionCall (ensure_parts L t p found ps ! q) = is_functionCall (ps ! q)"
  by (simp add: ensure_parts_nth)

lemma fc_indices_ensure_parts:
  "fc_indices (ensure_parts L t p found ps) = fc_indices ps"
  unfolding fc_indices_def
  by (rule filter_cong) (simp_all add: ensure_parts_length ensure_parts_is_functionCall)

text \<open>
  Claim C10 (frame of \<^verbatim>\<open>ensureSignatures\<close>). The call keeps the number and order of
  turns and of the parts of every turn, and the role of every turn; a user turn is
  returned as it was. A part that differs after the call is, in strict mode, a function
  call of a model turn with no function call before it in that turn and no truthy
  signature of its own, and it differs only by the signature it received (the ledger's
  token for its position, or the sentinel). With the strict flag false the contents are
  returned unchanged.
\<close>

theorem ensureSignatures_frame:
  "length (ensureSignatures L cs strict) = length cs \<and>
   (\<forall>t<length cs.
      role (ensureSignatures L cs strict ! t) = role (cs ! t) \<and>
      length (parts (ensureSignatures L cs strict ! t)) = length (parts (cs ! t)) \<and>
      (role (cs ! t) = RUser \<longrightarrow> ensureSignatures L cs strict ! t = cs ! t) \<and>
      (\<forall>p<length (parts (cs ! t)).
         parts (ensureSignatures L cs strict ! t) ! p \<noteq> parts (cs ! t) ! p \<longrightarrow>
           strict \<and> role (cs ! t) = RModel \<and>
           is_functionCall (parts (cs ! t) ! p) \<and>
           (\<forall>q<p. \<not> is_functionCall (parts (cs ! t) ! q)) \<and>
           \<not> truthy_string (thoughtSignature (parts (cs ! t) ! p)) \<and>
           parts (ensureSignatures L cs strict ! t) ! p =
             set_thoughtSignature (parts (cs ! t) ! p) (stored_or_dummy L t p))) \<and>
   (\<not> strict \<longrightarrow> ensureSignatures L cs strict = cs)"
proof (cases strict)
  case False
  then show ?thesis by (simp add: ensureSignatures_def)
next
  case True
  have out: "ensureSignatures L cs strict = ensure_turns L 0 cs"
    using True by (simp add: ensureSignatures_def)
  have "\<And>t. t < length cs \<Longrightarrow> role (cs ! t) = RUser \<Longrightarrow> ensure_turns L 0 cs ! t = cs ! t"
    by (simp add: ensure_turns_nth)
  moreover have "\<And>t. t < length cs \<Longrightarrow> role (ensure_turns L 0 cs ! t) = role (cs ! t)"
    by (simp add: ensure_turns_nth)
  moreover have "\<And>t. t < length cs \<Longrightarrow>
      length (parts (ensure_turns L 0 cs ! t)) = length (parts (cs ! t))"
    by (simp add: ensure_turns_nth ensure_parts_length)
  moreover have "\<And>t p. t < length cs \<Longrightarrow> p < length (parts (cs ! t)) \<Longrightarrow>
      parts (ensure_turns L 0 cs ! t) ! p \<noteq> parts (cs ! t) ! p \<Longrightarrow>
      role (cs ! t) = RModel \<and> is_functionCall (parts (cs ! t) ! p) \<and>
      (\<forall>q<p. \<not> is_functionCall (parts (cs ! t) ! q)) \<and>
      \<not> truthy_string (thoughtSignature (parts (cs ! t) ! p)) \<and>
      parts (ensure_turns L 0 cs ! t) ! p =
        set_thoughtSignature (parts (cs ! t) ! p) (stored_or_dummy L t p)"
    by (simp add: ensure_turns_nth ensure_parts_nth split: if_splits)
  ultimately show ?thesis
    unfolding out using True by (simp add: ensure_turns_length)
qed

theorem ensureSignatures_frame_witness:
  "ensureSignatures new_ledger frame_example True ! 0 = frame_example ! 0 \<and>
   parts (ensureSignatures new_ledger frame_example True ! 1) ! 1 =
     FunctionCallPart ''tool_a'' (Some (JObject [])) (Some DUMMY_THOUGHT_SIGNATURE) \<and>
   parts (ensureSignatures new_ledger frame_example True ! 1) ! 2 =
     FunctionCallPart ''tool_b'' (Some (JObject [])) None \<and>
   ensureSignatures new_ledger frame_example False = frame_example"
  using ensureSignatures_frame[of new_ledger frame_example True]
        ensureSignatures_frame[of new_ledger frame_example False]
  by (simp add: frame_example_def ensureSignatures_def stored_or_dummy_def getSignature_def
        new_ledger_def)

text \<open>
  Claim C1, as amended. In strict mode, for a model turn whose function calls stand at
  the positions \<open>i # later\<close>: the positions of the function calls are the same after the
  call; the first function call carries a signature, its own when it already had a
  truthy one, otherwise the ledger's token for \<open>(t, i)\<close> or the sentinel; every later
  function call is the part it was before, so it carries a signature after the call only
  if it carried it before, whatever the ledger stores for its position. Where the first
  call had no truthy signature and no later call carried one, the claim's property holds
  as it is written.
\<close>

theorem ensureSignatures_first_functionCall:
  assumes "t < length cs" and "role (cs ! t) = RModel"
    and "fc_indices (parts (cs ! t)) = i # later"
  shows "fc_indices (parts (ensureSignatures L cs True ! t)) = i # later \<and>
         thoughtSignature (parts (ensureSignatures L cs True ! t) ! i) =
           (if truthy_string (thoughtSignature (parts (cs ! t) ! i))
            then thoughtSignature (parts (cs ! t) ! i)
            else Some (stored_or_dummy L t i)) \<and>
         (\<forall>j\<in>set later. parts (ensureSignatures L cs True ! t) ! j = parts (cs ! t) ! j) \<and>
         (\<not> truthy_string (thoughtSignature (parts (cs ! t) ! i)) \<and>
          list_all (\<lambda>j. thoughtSignature (parts (cs ! t) ! j) = None) later
          \<longrightarrow> only_first_fc_signed L t (parts (ensureSignatures L cs True ! t)))"
proof -
  let ?ps = "parts (cs ! t)"
  let ?out = "parts (ensureSignatures L cs True ! t)"
  have out: "?out = ensure_parts L t 0 False ?ps"
    using assms(1,2) by (simp add: ensureSignatures_def ensure_turns_nth)
  note fc = fc_indices_Cons[OF assms(3)]
  have idx: "fc_indices ?out = i # later"
    using assms(3) by (simp add: out fc_indices_ensure_parts)
  have first: "thoughtSignature (?out ! i) =
           (if truthy_string (thoughtSignature (?ps ! i))
            then thoughtSignature (?ps ! i)
            else Some (stored_or_dummy L t i))"
    using fc(1,2,3) by (simp add: out ensure_parts_nth thoughtSignature_set)
  have rest: "\<forall>j\<in>set later. ?out ! j = ?ps ! j"
  proof
    fix j assume "j \<in> set later"
    with fc(4) have "i < j" and "j < length ?ps" by auto
    moreover from \<open>i < j\<close> fc(2) have "\<not> (\<forall>r<j. \<not> is_functionCall (?ps ! r))" by auto
    ultimately show "?out ! j = ?ps ! j" by (auto simp: out ensure_parts_nth)
  qed
  have claim: "only_first_fc_signed L t ?out"
    if "\<not> truthy_string (thoughtSignature (?ps ! i))"
      and "list_all (\<lambda>j. thoughtSignature (?ps ! j) = None) later"
    using that first rest by (simp add: only_first_fc_signed_def idx list_all_iff)
  from idx first rest claim show ?thesis by blast
qed

lemma fc_indices_two:
  "fc_indices [FunctionCallPart a x s, FunctionCallPart b y s'] = [0, 1]"
  by (simp add: fc_indices_def upt_rec)

theorem ensureSignatures_first_functionCall_witness:
  "fc_indices (parts (parallel_calls ! 0)) = [0, 1] \<and>
   only_first_fc_signed (store_signature 0 1 ''stored_b'' new_ledger) 0
     (parts (ensureSignatures (store_signature 0 1 ''stored_b'' new_ledger) parallel_calls True ! 0)) \<and>
   parts (ensureSignatures (store_signature 0 1 ''stored_b'' new_ledger) parallel_calls True ! 0) ! 1 =
     FunctionCallPart ''tool_b'' (Some (JObject [])) None"
  using ensureSignatures_first_functionCall[of 0 parallel_calls 0 "[1]"
          "store_signature 0 1 ''stored_b'' new_ledger"]
  by (simp add: parallel_calls_def fc_indices_two)

text \<open>
  The claim as written fails on a model turn whose parallel calls both carry a signature
  already: the call removes nothing, so the second call still carries its signature, and
  the first keeps its own, which is neither the ledger's token nor the sentinel.
\<close>

theorem ensureSignatures_keeps_later_signatures:
  "\<not> only_first_fc_signed new_ledger 0
       (parts (ensureSignatures new_ledger signed_parallel_calls True ! 0))"
  by (simp add: signed_parallel_calls_def ensureSignatures_def only_first_fc_signed_def
        fc_indices_two stored_or_dummy_def getSignature_def new_ledger_def
        DUMMY_THOUGHT_SIGNATURE_def)

section \<open>Properties of request conversion\<close>

lemma fold_convert_block_text:
  "textAndImageParts (fold (convert_block m caps r) bs acc) =
     textAndImageParts acc @ text_image_parts bs"
proof (induction bs arbitrary: acc)
  case Nil
  then show ?case by (simp add: text_image_parts_def)
next
  case (Cons b bs)
  show ?case using Cons.IH
    by (cases b) (simp_all add: text_image_parts_def)
qed

lemma fold_convert_block_results:
  "toolResultContents (fold (convert_block m caps r) bs acc) =
     toolResultContents acc @ map (function_response_turn m) (tool_results bs)"
proof (induction bs arbitrary: acc)
  case Nil
  then show ?case by (simp add: tool_results_def)
next
  case (Cons b bs)
  show ?case using Cons.IH
    by (cases b)
       (simp_all add: tool_results_def function_response_turn_def convertToolResult_def)
qed

lemma text_image_parts_nonempty:
  "(text_image_parts bs \<noteq> []) = (\<exists>b\<in>set bs. is_text_or_image b)"
proof (induction bs)
  case Nil
  then show ?case by (simp add: text_image_parts_def)
next
  case (Cons b bs)
  then show ?case by (cases b) (simp_all add: text_image_parts_def)
qed

lemma tool_results_nonempty:
  "(tool_results bs \<noteq> []) = (\<exists>b\<in>set bs. is_tool_result b)"
proof (induction bs)
  case Nil
  then show ?case by (simp add: tool_results_def)
next
  case (Cons b bs)
  then show ?case by (cases b) (simp_all add: tool_results_def)
qed

lemma tool_results_member:
  "ToolResultParam tid c e \<in> set bs \<Longrightarrow> (tid, c, e) \<in> set (tool_results bs)"
  by (auto simp: tool_results_def intro!: bexI[where x = "ToolResultParam tid c e"])

lemma convertSingleMessage_user:
  assumes "msg_role msg = User" and "msg_content msg = BlockContent blocks"
  shows "convertSingleMessage m caps msg =
     (if text_image_parts blocks = [] \<and> tool_results blocks = []
      then [\<lparr>role = RUser, parts = [TextPart [] None None]\<rparr>]
      else (if text_image_parts blocks \<noteq> []
            then [\<lparr>role = RUser, parts = text_image_parts blocks\<rparr>] else [])
           @ map (function_response_turn m) (tool_results blocks))"
  using assms
  by (simp add: convertSingleMessage_def Let_def fold_convert_block_text
        fold_convert_block_results)

lemma function_response_turn_user: "role (function_response_turn m r) = RUser"
  by (cases r) (simp add: function_response_turn_def)

lemma convertSingleMessage_user_roles:
  assumes "msg_role msg = User"
  shows "\<forall>c\<in>set (convertSingleMessage m caps msg). role c = RUser"
proof (cases "msg_content msg")
  case (StringContent s)
  with assms show ?thesis by (simp add: convertSingleMessage_def)
next
  case (BlockContent blocks)
  show ?thesis
    by (auto simp: convertSingleMessage_user[OF assms BlockContent] function_response_turn_user)
qed

lemma convertMessages_split:
  assumes "\<forall>c\<in>set (convertSingleMessage m caps msg). role c = RUser"
  shows "\<exists>rest. convertMessages m L caps (before @ msg # after) =
           convertMessages m L caps before @ convertSingleMessage m caps msg @ rest"
proof (cases "isGemini3 caps")
  case False
  then show ?thesis by (simp add: convertMessages_def)
next
  case True
  let ?X = "concat (map (convertSingleMessage m caps) before)"
  let ?S = "convertSingleMessage m caps msg"
  let ?Y = "concat (map (convertSingleMessage m caps) after)"
  have "ensure_turns L 0 (?X @ ?S @ ?Y) =
        ensure_turns L 0 ?X @ ?S @ ensure_turns L (length ?X + length ?S) ?Y"
    using assms by (simp add: ensure_turns_append ensure_turns_user)
  with True show ?thesis
    by (simp add: convertMessages_def ensureSignatures_def)
qed

text \<open>
  Claim C8 (a mixed user turn is split). A user message whose blocks hold at least one
  text or image block and at least one tool result is converted into one user turn that
  carries the text and image parts only (in their order; a tool call in a user message
  contributes nothing), followed by one user turn per tool result, in the order of the
  tool results, each with exactly one function response, named by the resolved tool name.
  In the converted history these turns stand together, in this order, right after the
  turns of the messages before: the signature pass leaves user turns alone.
\<close>

theorem user_turn_split:
  assumes "msg_role msg = User" and "msg_content msg = BlockContent blocks"
    and "\<exists>b\<in>set blocks. is_text_or_image b"
    and "\<exists>b\<in>set blocks. is_tool_result b"
  shows "convertSingleMessage m caps msg =
           \<lparr>role = RUser, parts = text_image_parts blocks\<rparr> #
           map (\<lambda>(tid, c, is_error).
                  \<lparr>role = RUser,
                   parts = [FunctionResponsePart (resolveToolName m tid) (responseData c is_error)]\<rparr>)
               (tool_results blocks) \<and>
         tool_results blocks \<noteq> [] \<and>
         (\<exists>rest. convertMessages m L caps (before @ msg # after) =
            convertMessages m L caps before @ convertSingleMessage m caps msg @ rest)"
proof -
  have t: "text_image_parts blocks \<noteq> []" using assms(3) by (simp add: text_image_parts_nonempty)
  have r: "tool_results blocks \<noteq> []" using assms(4) by (simp add: tool_results_nonempty)
  have f: "function_response_turn m = (\<lambda>(tid, c, is_error).
                  \<lparr>role = RUser,
                   parts = [FunctionResponsePart (resolveToolName m tid) (responseData c is_error)]\<rparr>)"
    by (auto simp: function_response_turn_def fun_eq_iff)
  have a: "convertSingleMessage m caps msg =
          \<lparr>role = RUser, parts = text_image_parts blocks\<rparr> #
          map (function_response_turn m) (tool_results blocks)"
    using t by (simp add: convertSingleMessage_user[OF assms(1,2)])
  have c: "\<exists>rest. convertMessages m L caps (before @ msg # after) =
            convertMessages m L caps before @ convertSingleMessage m caps msg @ rest"
    by (rule convertMessages_split) (rule convertSingleMessage_user_roles[OF assms(1)])
  from a[unfolded f] r c show ?thesis by blast
qed

theorem user_turn_split_witness:
  "convertSingleMessage two_tools gemini3_caps mixed_user_message =
     [\<lparr>role = RUser, parts = [TextPart ''and now?'' None None]\<rparr>,
      \<lparr>role = RUser,
       parts = [FunctionResponsePart ''calc'' (JObject [(''result'', JString ''42'')])]\<rparr>,
      \<lparr>role = RUser,
       parts = [FunctionResponsePart ''toolu_2'' (JObject [(''error'', JString ''boom'')])]\<rparr>]"
  using user_turn_split[of mixed_user_message
      "[ToolResultParam ''toolu_1'' (Some (ResultText ''42'')) None,
         TextParam ''and now?'',
         ToolResultParam ''toolu_2'' (Some (ResultText ''boom'')) (Some True)]"
      two_tools gemini3_caps new_ledger "[]" "[]"]
  by (simp add: mixed_user_message_def two_tools_def text_image_parts_def tool_results_def
        resolveToolName_def responseData_def extractToolResultText_def)

lemma scan_blocks_eq:
  "scan_blocks bs m = m ++ map_of (rev (concat (map tool_use_of bs)))"
proof (induction bs arbitrary: m)
  case Nil
  then show ?case by simp
next
  case (Cons b bs)
  show ?case
  proof (cases b)
    case (ToolUseParam tid name inp)
    have ih: "scan_blocks bs (m(tid \<mapsto> name)) =
                m(tid \<mapsto> name) ++ map_of (rev (concat (map tool_use_of bs)))"
      by (rule Cons.IH)
    show ?thesis unfolding ToolUseParam by (simp add: ih)
  qed (simp_all add: Cons.IH)
qed

lemma scan_messages_eq:
  "scan_messages msgs m = m ++ map_of (rev (tool_uses msgs))"
proof (induction msgs arbitrary: m)
  case Nil
  then show ?case by (simp add: tool_uses_def)
next
  case (Cons msg msgs)
  show ?case
  proof (cases "msg_content msg")
    case (StringContent s)
    then show ?thesis using Cons.IH[of m] by (simp add: tool_uses_def)
  next
    case (BlockContent bs)
    then show ?thesis using Cons.IH[of "scan_blocks bs m"]
      by (simp add: tool_uses_def scan_blocks_eq)
  qed
qed

lemma buildToolNameMap_eq: "buildToolNameMap msgs = map_of (rev (tool_uses msgs))"
  by (simp add: buildToolNameMap_def scan_messages_eq)

lemma map_of_rev_unique:
  assumes "(k, v) \<in> set xs" and "\<forall>w. (k, w) \<in> set xs \<longrightarrow> w = v"
  shows "map_of (rev xs) k = Some v"
proof (cases "map_of (rev xs) k")
  case None
  then have "k \<notin> fst ` set (rev xs)" by (simp add: map_of_eq_None_iff)
  with assms(1) show ?thesis by force
next
  case (Some w)
  then have "(k, w) \<in> set xs" using map_of_SomeD[of "rev xs" k w] by simp
  with assms(2) Some show ?thesis by simp
qed

lemma map_of_rev_last:
  assumes "xs = pre @ (k, v) # post" and "k \<notin> fst ` set post"
  shows "map_of (rev xs) k = Some v"
proof -
  have "map_of (rev post) k = None" using assms(2) by (simp add: map_of_eq_None_iff)
  then show ?thesis using assms(1) by (simp add: map_add_def)
qed

lemma user_turn_kept:
  assumes "c \<in> set cs" and "role c = RUser"
  shows "c \<in> set (ensure_turns L t cs)"
proof -
  from assms(1) obtain k where k: "k < length cs" and c: "cs ! k = c"
    by (auto simp: in_set_conv_nth)
  then have "ensure_turns L t cs ! k = c" using assms(2) by (simp add: ensure_turns_nth)
  moreover have "k < length (ensure_turns L t cs)" using k by (simp add: ensure_turns_length)
  ultimately show ?thesis by (metis nth_mem)
qed

lemma text_image_parts_no_response:
  "\<forall>p\<in>set (text_image_parts bs). \<not> is_functionResponse p"
proof (induction bs)
  case Nil
  then show ?case by (simp add: text_image_parts_def)
next
  case (Cons b bs)
  have "\<forall>p\<in>set (text_image_part b). \<not> is_functionResponse p"
  proof (cases b)
    case (ImageParam src)
    then show ?thesis by (cases src) simp_all
  qed simp_all
  with Cons show ?case by (auto simp: text_image_parts_def)
qed

lemma fold_convert_block_calls:
  "\<forall>p\<in>set (toolUseParts acc). \<not> is_functionResponse p \<Longrightarrow>
   \<forall>p\<in>set (toolUseParts (fold (convert_block m caps r) bs acc)). \<not> is_functionResponse p"
proof (induction bs arbitrary: acc)
  case Nil
  then show ?case by simp
next
  case (Cons b bs)
  have "\<forall>p\<in>set (toolUseParts (convert_block m caps r b acc)). \<not> is_functionResponse p"
    using Cons.prems by (cases b) simp_all
  then show ?case using Cons.IH[of "convert_block m caps r b acc"] by simp
qed

lemma convertSingleMessage_assistant:
  assumes "msg_role msg = Assistant"
  shows "\<forall>turn\<in>set (convertSingleMessage m caps msg).
           role turn = RModel \<and> (\<forall>p\<in>set (parts turn). \<not> is_functionResponse p)"
proof (cases "msg_content msg")
  case (StringContent s)
  then show ?thesis using assms by (simp add: convertSingleMessage_def)
next
  case (BlockContent blocks)
  let ?acc = "fold (convert_block m caps RModel) blocks
                \<lparr>textAndImageParts = [], toolUseParts = [], toolResultContents = []\<rparr>"
  have t: "\<forall>p\<in>set (textAndImageParts ?acc). \<not> is_functionResponse p"
    by (simp add: fold_convert_block_text text_image_parts_no_response)
  have u: "\<forall>p\<in>set (toolUseParts ?acc). \<not> is_functionResponse p"
    by (rule fold_convert_block_calls) simp
  show ?thesis using assms BlockContent t u
    by (auto simp: convertSingleMessage_def Let_def)
qed

text \<open>
  Claim C6, as amended (tool name resolution). After \<^verbatim>\<open>buildToolNameMap\<close> over the
  whole history, every \<^verbatim>\<open>tool_result\<close> block of a user-role message is translated to a
  user turn with one function response whose name is the resolved name, and that turn is
  in the converted history. A \<^verbatim>\<open>tool_result\<close> block of an assistant-role message is not
  translated: the turns made from that message are model turns without any function
  response. The resolved name is the id itself when no tool call of the history has that
  id; it is the name a tool call of that id declares when all tool calls of that id
  declare the same name; in general it is the name declared by the last tool call of that
  id. The conversion is a total function: an unresolved id is not an error.
\<close>

theorem tool_result_name_resolution:
  assumes "ToolResultParam tid c is_error \<in> set blocks"
    and "msg_content msg = BlockContent blocks"
    and "msg \<in> set messages"
  shows "convertToolResult (buildToolNameMap messages) tid c is_error =
           \<lparr>role = RUser,
            parts = [FunctionResponsePart (resolveToolName (buildToolNameMap messages) tid)
                       (responseData c is_error)]\<rparr> \<and>
         (msg_role msg = User \<longrightarrow>
            \<lparr>role = RUser,
             parts = [FunctionResponsePart (resolveToolName (buildToolNameMap messages) tid)
                        (responseData c is_error)]\<rparr>
            \<in> set (convertMessages (buildToolNameMap messages) L caps messages)) \<and>
         (msg_role msg = Assistant \<longrightarrow>
            (\<forall>turn\<in>set (convertSingleMessage (buildToolNameMap messages) caps msg).
               role turn = RModel \<and> (\<forall>p\<in>set (parts turn). \<not> is_functionResponse p))) \<and>
         (tid \<notin> fst ` set (tool_uses messages) \<longrightarrow>
            resolveToolName (buildToolNameMap messages) tid = tid) \<and>
         (\<forall>declared.
            (tid, declared) \<in> set (tool_uses messages) \<and>
            (\<forall>other. (tid, other) \<in> set (tool_uses messages) \<longrightarrow> other = declared) \<longrightarrow>
            resolveToolName (buildToolNameMap messages) tid = declared) \<and>
         (\<forall>earlier declared later.
            tool_uses messages = earlier @ (tid, declared) # later \<and> tid \<notin> fst ` set later \<longrightarrow>
            resolveToolName (buildToolNameMap messages) tid = declared)"
proof -
  let ?m = "buildToolNameMap messages"
  let ?turn = "\<lparr>role = RUser,
            parts = [FunctionResponsePart (resolveToolName ?m tid) (responseData c is_error)]\<rparr>"
  have one: "convertToolResult ?m tid c is_error = ?turn"
    by (simp add: convertToolResult_def)
  have two: "?turn \<in> set (convertMessages ?m L caps messages)" if u: "msg_role msg = User"
  proof -
    have "(tid, c, is_error) \<in> set (tool_results blocks)"
      using assms(1) by (rule tool_results_member)
    then have "?turn \<in> set (map (function_response_turn ?m) (tool_results blocks))"
      by (force simp: function_response_turn_def)
    moreover have "tool_results blocks \<noteq> []"
      using \<open>(tid, c, is_error) \<in> set (tool_results blocks)\<close> by auto
    ultimately have "?turn \<in> set (convertSingleMessage ?m caps msg)"
      by (simp add: convertSingleMessage_user[OF u assms(2)])
    with assms(3) have mem: "?turn \<in> set (concat (map (convertSingleMessage ?m caps) messages))"
      by auto
    show ?thesis
    proof (cases "isGemini3 caps")
      case True
      then show ?thesis using user_turn_kept[OF mem, of L 0]
        by (simp add: convertMessages_def ensureSignatures_def)
    next
      case False
      then show ?thesis using mem by (simp add: convertMessages_def)
    qed
  qed
  have three: "resolveToolName ?m tid = tid" if "tid \<notin> fst ` set (tool_uses messages)"
  proof -
    from that have "map_of (rev (tool_uses messages)) tid = None"
      by (simp add: map_of_eq_None_iff)
    then show ?thesis by (simp add: resolveToolName_def buildToolNameMap_eq)
  qed
  have four: "resolveToolName ?m tid = declared"
    if "(tid, declared) \<in> set (tool_uses messages)"
      and "\<forall>other. (tid, other) \<in> set (tool_uses messages) \<longrightarrow> other = declared"
    for declared
    using map_of_rev_unique[OF that] by (simp add: resolveToolName_def buildToolNameMap_eq)
  have five: "resolveToolName ?m tid = declared"
    if "tool_uses messages = earlier @ (tid, declared) # later" and "tid \<notin> fst ` set later"
    for earlier declared later
    using map_of_rev_last[OF that] by (simp add: resolveToolName_def buildToolNameMap_eq)
  have six: "\<forall>turn\<in>set (convertSingleMessage ?m caps msg).
               role turn = RModel \<and> (\<forall>p\<in>set (parts turn). \<not> is_functionResponse p)"
    if "msg_role msg = Assistant"
    using that by (rule convertSingleMessage_assistant)
  from one two three four five six show ?thesis by blast
qed

lemma tool_history_uses: "tool_uses tool_history = [(''toolu_1'', ''calc'')]"
  by (simp add: tool_history_def tool_uses_def)

theorem tool_result_name_resolution_witness:
  "resolveToolName (buildToolNameMap tool_history) ''toolu_1'' = ''calc'' \<and>
   resolveToolName (buildToolNameMap tool_history) ''toolu_9'' = ''toolu_9'' \<and>
   \<lparr>role = RUser,
    parts = [FunctionResponsePart ''calc'' (JObject [(''result'', JString ''42'')])]\<rparr>
     \<in> set (convertMessages (buildToolNameMap tool_history) new_ledger gemini3_caps tool_history) \<and>
   \<lparr>role = RUser,
    parts = [FunctionResponsePart ''toolu_9'' (JObject [(''result'', JString [])])]\<rparr>
     \<in> set (convertMessages (buildToolNameMap tool_history) new_ledger gemini3_caps tool_history) \<and>
   list_all (\<lambda>turn. role turn = RModel \<and> list_all (\<lambda>p. \<not> is_functionResponse p) (parts turn))
     (convertSingleMessage (buildToolNameMap misplaced_tool_result) gemini3_caps
        (misplaced_tool_result ! 1))"
proof -
  let ?blocks = "[ToolResultParam ''toolu_1'' (Some (ResultText ''42'')) None,
          ToolResultParam ''toolu_9'' None None]"
  let ?msg = "\<lparr>msg_role = User, msg_content = BlockContent ?blocks\<rparr>"
  have m: "?msg \<in> set tool_history" by (simp add: tool_history_def)
  have a: "ToolResultParam ''toolu_1'' (Some (ResultText ''42'')) None \<in> set ?blocks" by simp
  have b: "ToolResultParam ''toolu_9'' None None \<in> set ?blocks" by simp
  have c: "msg_content ?msg = BlockContent ?blocks" by simp
  note r1 = tool_result_name_resolution[OF a c m, of new_ledger gemini3_caps]
  note r2 = tool_result_name_resolution[OF b c m, of new_ledger gemini3_caps]
  have n1: "resolveToolName (buildToolNameMap tool_history) ''toolu_1'' = ''calc''"
  proof -
    from r1 have "(''toolu_1'', ''calc'') \<in> set (tool_uses tool_history) \<and>
        (\<forall>other. (''toolu_1'', other) \<in> set (tool_uses tool_history) \<longrightarrow> other = ''calc'') \<longrightarrow>
        resolveToolName (buildToolNameMap tool_history) ''toolu_1'' = ''calc''"
      by blast
    then show ?thesis by (simp add: tool_history_uses)
  qed
  have n9: "resolveToolName (buildToolNameMap tool_history) ''toolu_9'' = ''toolu_9''"
  proof -
    from r2 have "''toolu_9'' \<notin> fst ` set (tool_uses tool_history) \<longrightarrow>
        resolveToolName (buildToolNameMap tool_history) ''toolu_9'' = ''toolu_9''"
      by blast
    then show ?thesis by (simp add: tool_history_uses)
  qed
  have u: "msg_role ?msg = User" by simp
  from r1 u have t1: "\<lparr>role = RUser,
             parts = [FunctionResponsePart (resolveToolName (buildToolNameMap tool_history) ''toolu_1'')
                        (responseData (Some (ResultText ''42'')) None)]\<rparr>
            \<in> set (convertMessages (buildToolNameMap tool_history) new_ledger gemini3_caps tool_history)"
    by blast
  from r2 u have t9: "\<lparr>role = RUser,
             parts = [FunctionResponsePart (resolveToolName (buildToolNameMap tool_history) ''toolu_9'')
                        (responseData None None)]\<rparr>
            \<in> set (convertMessages (buildToolNameMap tool_history) new_ledger gemini3_caps tool_history)"
    by blast
  have d1: "responseData (Some (ResultText ''42'')) None = JObject [(''result'', JString ''42'')]"
    by (simp add: responseData_def extractToolResultText_def)
  have d9: "responseData None None = JObject [(''result'', JString [])]"
    by (simp add: responseData_def extractToolResultText_def)
  let ?ablocks = "[ToolUseParam ''toolu_1'' ''calc'' (JObject []),
          ToolResultParam ''toolu_1'' (Some (ResultText ''42'')) None]"
  have am: "misplaced_tool_result ! 1 \<in> set misplaced_tool_result"
    by (simp add: misplaced_tool_result_def)
  have aa: "ToolResultParam ''toolu_1'' (Some (ResultText ''42'')) None \<in> set ?ablocks" by simp
  have ac: "msg_content (misplaced_tool_result ! 1) = BlockContent ?ablocks"
    by (simp add: misplaced_tool_result_def)
  have au: "msg_role (misplaced_tool_result ! 1) = Assistant"
    by (simp add: misplaced_tool_result_def)
  note r3 = tool_result_name_resolution[OF aa ac am, of new_ledger gemini3_caps]
  from r3 au have "\<forall>turn\<in>set (convertSingleMessage (buildToolNameMap misplaced_tool_result)
                      gemini3_caps (misplaced_tool_result ! 1)).
               role turn = RModel \<and> (\<forall>p\<in>set (parts turn). \<not> is_functionResponse p)"
    by blast
  then have t3: "list_all (\<lambda>turn. role turn = RModel \<and>
                     list_all (\<lambda>p. \<not> is_functionResponse p) (parts turn))
     (convertSingleMessage (buildToolNameMap misplaced_tool_result) gemini3_caps
        (misplaced_tool_result ! 1))"
    by (simp add: list_all_iff)
  from t1 t9 t3 show ?thesis unfolding n1 n9 d1 d9 using n1 n9 by blast
qed

text \<open>
  The claim as written fails for a \<^verbatim>\<open>tool_result\<close> block inside an assistant message:
  \<^verbatim>\<open>convertSingleMessage\<close> uses \<^verbatim>\<open>toolResultContents\<close> in the user branch only, so the
  block is dropped and the converted history has no function response, although the id
  of the block is that of a tool call of the history.
\<close>

theorem assistant_tool_result_dropped:
  "resolveToolName (buildToolNameMap misplaced_tool_result) ''toolu_1'' = ''calc'' \<and>
   convertMessages (buildToolNameMap misplaced_tool_result) new_ledger gemini3_caps
     misplaced_tool_result =
     [\<lparr>role = RUser, parts = [TextPart ''compute'' None None]\<rparr>,
      \<lparr>role = RModel,
       parts = [FunctionCallPart ''calc'' (Some (JObject [])) (Some DUMMY_THOUGHT_SIGNATURE)]\<rparr>] \<and>
   \<not> list_ex (\<lambda>turn. list_ex is_functionResponse (parts turn))
       (convertMessages (buildToolNameMap misplaced_tool_result) new_ledger gemini3_caps
          misplaced_tool_result)"
  by (simp add: misplaced_tool_result_def convertMessages_def convertSingleMessage_def
        gemini3_caps_def ensureSignatures_def stored_or_dummy_def
        DUMMY_THOUGHT_SIGNATURE_def getSignature_def new_ledger_def
        buildToolNameMap_def resolveToolName_def)

section \<open>Properties of stream conversion\<close>

lemma grammar_run_append:
  "grammar_run m g (xs @ ys) =
     (case grammar_run m g xs of None \<Rightarrow> None | Some g1 \<Rightarrow> grammar_run m g1 ys)"
  by (induction xs arbitrary: g) (auto split: option.splits)

lemma closeCurrentBlock_inv:
  "stream_inv st \<Longrightarrow>
   stream_inv (closeCurrentBlock st) \<and> currentBlockType (closeCurrentBlock st) = None"
  by (auto simp: stream_inv_def closeCurrentBlock_def emitEvent_def Let_def
        grammar_run_append grammar_state_of_def split: option.splits)

lemma handleTextDelta_inv: "stream_inv st \<Longrightarrow> stream_inv (handleTextDelta txt st)"
  using closeCurrentBlock_inv[of st]
  by (auto simp: stream_inv_def handleTextDelta_def emitEvent_def Let_def
        grammar_run_append grammar_state_of_def split: option.splits)

lemma handleThinkingDelta_inv:
  "stream_inv st \<Longrightarrow> stream_inv (handleThinkingDelta thinking signature st)"
  using closeCurrentBlock_inv[of st]
  by (auto simp: stream_inv_def handleThinkingDelta_def emitEvent_def Let_def
        grammar_run_append grammar_state_of_def split: option.splits)

lemma handleToolUse_inv: "stream_inv st \<Longrightarrow> stream_inv (handleToolUse gen name args st)"
  using closeCurrentBlock_inv[of st]
  by (auto simp: stream_inv_def handleToolUse_def emitEvent_def Let_def
        grammar_run_append grammar_state_of_def split: option.splits)

lemma signatures_update_inv:
  "stream_inv (st\<lparr>signatures := x\<rparr>) = stream_inv st"
  by (simp add: stream_inv_def grammar_state_of_def split: option.splits)

lemma processPart_inv: "stream_inv st \<Longrightarrow> stream_inv (processPart gen part st)"
  by (cases part)
     (simp_all add: processPart_def Let_def signatures_update_inv handleTextDelta_inv
        handleThinkingDelta_inv handleToolUse_inv)

lemma fold_processPart_inv: "stream_inv st \<Longrightarrow> stream_inv (fold (processPart gen) ps st)"
  by (induction ps arbitrary: st) (simp_all add: processPart_inv)

lemma usage_update_inv:
  "stream_inv (st\<lparr>inputTokens := a\<rparr>) = stream_inv st"
  "stream_inv (st\<lparr>outputTokens := b\<rparr>) = stream_inv st"
  by (simp_all add: stream_inv_def grammar_state_of_def split: option.splits)

lemma message_start_inv:
  "stream_initial st \<Longrightarrow> stream_inv ((emitMessageStart chunk st)\<lparr>messageStarted := True\<rparr>)"
  by (simp add: stream_initial_def stream_inv_def emitMessageStart_def emitEvent_def
        grammar_state_of_def)

lemma processChunk_inv:
  assumes "stream_initial st \<or> stream_inv st"
  shows "stream_inv (processChunk gen chunk st)"
proof -
  let ?st1 = "(if \<not> messageStarted st
                 then (emitMessageStart chunk st)\<lparr>messageStarted := True\<rparr> else st)"
  have 1: "stream_inv ?st1"
    using assms message_start_inv[of st chunk]
    by (auto simp: stream_inv_def stream_initial_def)
  show ?thesis
    unfolding processChunk_def Let_def
    using 1
    by (auto simp: usage_update_inv fold_processPart_inv split: option.splits)
qed

lemma fold_processChunk_inv:
  "stream_initial st \<or> stream_inv st \<Longrightarrow> chunks \<noteq> [] \<Longrightarrow>
   stream_inv (fold (processChunk gen) chunks st)"
proof (induction chunks arbitrary: st)
  case Nil
  then show ?case by simp
next
  case (Cons c cs)
  have "stream_inv (processChunk gen c st)" using Cons.prems(1) by (rule processChunk_inv)
  then show ?case using Cons.IH[of "processChunk gen c st"]
    by (cases cs) simp_all
qed

lemma processBufferedJson_parsed:
  "processBufferedJson gen jsonStr st = fold (processChunk gen) (parsed jsonStr) st"
  by (cases jsonStr) (simp_all add: processBufferedJson_def)

lemma fold_processBufferedJson:
  "fold (processBufferedJson gen) jsonStrs st =
     fold (processChunk gen) (concat (map parsed jsonStrs)) st"
  by (induction jsonStrs arbitrary: st) (simp_all add: processBufferedJson_parsed)

lemma pull_no_failure:
  "\<forall>r\<in>set reads. \<not> is_read_failure r \<Longrightarrow>
   pull gen reads flush st =
     end_of_stream (fold (processChunk gen) (all_chunks reads flush) st)"
proof (induction reads arbitrary: st)
  case Nil
  then show ?case
    by (cases flush)
       (simp_all add: all_chunks_def end_of_stream_def processBufferedJson_parsed)
next
  case (Cons r reads)
  then show ?case
    by (cases r) (simp_all add: all_chunks_def fold_processBufferedJson)
qed



lemma new_stream_initial: "stream_initial (new_stream L)"
  by (simp add: stream_initial_def new_stream_def)

lemma end_of_stream_initial:
  "stream_initial st \<Longrightarrow>
   queue (end_of_stream st) =
     [MessageStart 0, Ping, ContentBlockStart 0 (TextBlock []), ContentBlockStop 0,
      MessageDelta EndTurn (outputTokens st), MessageStop]"
  by (simp add: stream_initial_def end_of_stream_def closeCurrentBlock_def emitMessageEnd_def
        emitMessageStart_def emitEvent_def or_zero_def Let_def)

lemma end_of_stream_inv:
  assumes "stream_inv st"
  shows "grammar_run is_thinking_block GInit (queue (end_of_stream st)) = Some GDone"
    and "\<exists>pre n. queue (end_of_stream st) =
           pre @ [MessageDelta (if list_ex is_tool_use_start pre then ToolUse else EndTurn) n,
                  MessageStop]"
    and "\<not> list_ex is_error_event (queue (end_of_stream st))"
proof -
  let ?st = "closeCurrentBlock st"
  from closeCurrentBlock_inv[OF assms]
  have inv: "stream_inv ?st" and none: "currentBlockType ?st = None" by simp_all
  have q: "queue (end_of_stream st) =
             queue ?st @ [MessageDelta (if hasEmittedToolUse ?st then ToolUse else EndTurn)
                            (outputTokens ?st), MessageStop]"
    using inv by (simp add: end_of_stream_def emitMessageEnd_def emitEvent_def Let_def
          stream_inv_def)
  show "grammar_run is_thinking_block GInit (queue (end_of_stream st)) = Some GDone"
    using inv none by (simp add: q grammar_run_append stream_inv_def grammar_state_of_def)
  have "hasEmittedToolUse ?st = list_ex is_tool_use_start (queue ?st)"
    using inv by (simp add: stream_inv_def)
  with q show "\<exists>pre n. queue (end_of_stream st) =
           pre @ [MessageDelta (if list_ex is_tool_use_start pre then ToolUse else EndTurn) n,
                  MessageStop]"
    by auto
  show "\<not> list_ex is_error_event (queue (end_of_stream st))"
    using inv by (simp add: q stream_inv_def)
qed


lemma grammar_step_relax:
  assumes "grammar_le g h" and "grammar_step m g ev = Some g1"
  shows "\<exists>h1. grammar_step (\<lambda>b. True) h ev = Some h1 \<and> grammar_le g1 h1"
  using assms
  by (cases "(m, g, ev)" rule: grammar_step.cases; cases h)
     (auto split: if_splits)

lemma grammar_run_relax:
  assumes "grammar_le g h" and "grammar_run m g evs = Some g1"
  shows "\<exists>h1. grammar_run (\<lambda>b. True) h evs = Some h1 \<and> grammar_le g1 h1"
  using assms
proof (induction evs arbitrary: g h)
  case Nil
  then show ?case by simp
next
  case (Cons ev evs)
  from Cons.prems(2) obtain g2 where s: "grammar_step m g ev = Some g2"
    and r: "grammar_run m g2 evs = Some g1"
    by (auto split: option.splits)
  from grammar_step_relax[OF Cons.prems(1) s] obtain h2 where
    "grammar_step (\<lambda>b. True) h ev = Some h2" and "grammar_le g2 h2" by blast
  with Cons.IH[OF _ r, of h2] show ?case by simp
qed

lemma stream_grammar_relax:
  "stream_grammar m evs \<Longrightarrow> stream_grammar (\<lambda>b. True) evs"
  using grammar_run_relax[of GInit GInit m evs GDone]
  by (auto simp: stream_grammar_def)

lemma convertStream_no_failure:
  assumes "\<forall>r\<in>set reads. \<not> is_read_failure r"
  shows "all_chunks reads flush \<noteq> [] \<Longrightarrow>
           stream_inv (fold (processChunk gen) (all_chunks reads flush) (new_stream L))"
    and "convertStream gen L reads flush =
           end_of_stream (fold (processChunk gen) (all_chunks reads flush) (new_stream L))"
  using fold_processChunk_inv[of "new_stream L" "all_chunks reads flush" gen]
        new_stream_initial[of L] pull_no_failure[OF assms]
  by (simp_all add: convertStream_def)

lemmas stream_eval =
  convertStream_def new_stream_def processBufferedJson_def processChunk_def processPart_def handleTextDelta_def
  handleThinkingDelta_def handleToolUse_def closeCurrentBlock_def emitMessageEnd_def
  emitMessageStart_def emitEvent_def first_candidate_def or_zero_def store_if_truthy_def
  storeTextSignature_def Let_def

text \<open>
  Claim C2, as amended. When no read of the upstream body fails, the events emitted match
  \<^verbatim>\<open>message_start, ping, (content_block_start, content_block_delta*, content_block_stop)*,
  message_delta, message_stop\<close> with the block indices 0, 1, 2, ... in order. When at least
  one chunk was decoded, every text block and every tool-use block carries at least one
  delta before its stop; only a thinking block may be closed without one. When no chunk was
  decoded, the events are exactly the synthesized ones: an empty text block opened and
  closed at index 0.
\<close>

theorem stream_event_grammar:
  assumes "\<forall>r\<in>set reads. \<not> is_read_failure r"
  shows "(all_chunks reads flush \<noteq> [] \<longrightarrow>
            stream_grammar is_thinking_block (queue (convertStream gen L reads flush))) \<and>
         (all_chunks reads flush = [] \<longrightarrow>
            queue (convertStream gen L reads flush) =
              [MessageStart 0, Ping, ContentBlockStart 0 (TextBlock []), ContentBlockStop 0,
               MessageDelta EndTurn 0, MessageStop]) \<and>
         stream_grammar (\<lambda>b. True) (queue (convertStream gen L reads flush))"
proof -
  note cs = convertStream_no_failure[OF assms, where flush=flush and gen=gen and L=L]
  have a: "stream_grammar is_thinking_block (queue (convertStream gen L reads flush))"
    if "all_chunks reads flush \<noteq> []"
    using end_of_stream_inv(1)[OF cs(1)[OF that]] by (simp add: cs(2) stream_grammar_def)
  have b: "queue (convertStream gen L reads flush) =
              [MessageStart 0, Ping, ContentBlockStart 0 (TextBlock []), ContentBlockStop 0,
               MessageDelta EndTurn 0, MessageStop]"
    if "all_chunks reads flush = []"
    using end_of_stream_initial[OF new_stream_initial[of L]] that
    by (simp add: cs(2) new_stream_def)
  have c: "stream_grammar (\<lambda>b. True) (queue (convertStream gen L reads flush))"
  proof (cases "all_chunks reads flush = []")
    case True
    then show ?thesis by (simp add: b stream_grammar_def)
  next
    case False
    then show ?thesis using a by (simp add: stream_grammar_relax)
  qed
  from a b c show ?thesis by blast
qed

theorem stream_event_grammar_witness:
  "\<not> is_read_failure (ReadChunks [Parses (text_chunk ''Hi'')]) \<and>
   \<not> is_read_failure (ReadChunks [Parses (text_chunk '' there''), Parses (text_chunk ''!'')]) \<and>
   queue (convertStream example_ids new_ledger
            [ReadChunks [Parses (text_chunk ''Hi'')],
             ReadChunks [Parses (text_chunk '' there''), Parses (text_chunk ''!'')]]
            None) =
     [MessageStart 0, Ping, ContentBlockStart 0 (TextBlock []),
      ContentBlockDelta 0 (TextDelta ''Hi''), ContentBlockDelta 0 (TextDelta '' there''),
      ContentBlockDelta 0 (TextDelta ''!''), ContentBlockStop 0,
      MessageDelta EndTurn 0, MessageStop] \<and>
   stream_grammar is_thinking_block
     (queue (convertStream example_ids new_ledger
            [ReadChunks [Parses (text_chunk ''Hi'')],
             ReadChunks [Parses (text_chunk '' there''), Parses (text_chunk ''!'')]]
            None))"
proof -
  let ?reads = "[ReadChunks [Parses (text_chunk ''Hi'')],
                ReadChunks [Parses (text_chunk '' there''), Parses (text_chunk ''!'')]]"
  have nf: "\<forall>r\<in>set ?reads. \<not> is_read_failure r" by simp
  have ne: "all_chunks ?reads None \<noteq> []" by (simp add: all_chunks_def)
  have g: "stream_grammar is_thinking_block (queue (convertStream example_ids new_ledger ?reads None))"
    using stream_event_grammar[OF nf, where flush=None and gen=example_ids and L=new_ledger] ne by blast
  have q: "queue (convertStream example_ids new_ledger ?reads None) =
     [MessageStart 0, Ping, ContentBlockStart 0 (TextBlock []),
      ContentBlockDelta 0 (TextDelta ''Hi''), ContentBlockDelta 0 (TextDelta '' there''),
      ContentBlockDelta 0 (TextDelta ''!''), ContentBlockStop 0,
      MessageDelta EndTurn 0, MessageStop]"
    by (simp add: stream_eval text_chunk_def new_ledger_def)
  from g q show ?thesis by simp
qed

text \<open>
  The grammar as claimed (at least one delta in every block) is not met by the empty
  stream, whose synthesized text block has no delta, nor by a stream whose only part is a
  thinking part with empty text and no signature.
\<close>

theorem stream_block_without_delta:
  "queue (convertStream example_ids new_ledger [] None) =
     [MessageStart 0, Ping, ContentBlockStart 0 (TextBlock []), ContentBlockStop 0,
      MessageDelta EndTurn 0, MessageStop] \<and>
   \<not> stream_grammar (\<lambda>b. False) (queue (convertStream example_ids new_ledger [] None)) \<and>
   queue (convertStream example_ids new_ledger [ReadChunks [Parses empty_thought_chunk]] None) =
     [MessageStart 0, Ping, ContentBlockStart 0 (ThinkingBlock [] None), ContentBlockStop 0,
      MessageDelta EndTurn 0, MessageStop] \<and>
   \<not> stream_grammar (\<lambda>b. False)
       (queue (convertStream example_ids new_ledger [ReadChunks [Parses empty_thought_chunk]] None))"
  by (simp add: stream_eval empty_thought_chunk_def new_ledger_def stream_grammar_def)





section \<open>Stop reasons\<close>

lemma convert_stop_reason:
  "resp_stop_reason (fst (convert gen response L)) =
     convertFinishReason (upstream_finish_reason response)
       (resp_content (fst (convert gen response L)))"
  by (simp add: convert_def upstream_finish_reason_def buildEmptyResponse_def
        convertFinishReason_def split: option.splits prod.splits)

text \<open>
  Claim C7 (stop reasons). \<^verbatim>\<open>convertFinishReason\<close> gives \<^verbatim>\<open>tool_use\<close> whenever the
  content has a tool-use block, whatever the finish reason; otherwise \<^verbatim>\<open>STOP\<close> gives
  \<^verbatim>\<open>end_turn\<close>, \<^verbatim>\<open>MAX_TOKENS\<close> gives \<^verbatim>\<open>max_tokens\<close>, and any other or absent reason
  gives \<^verbatim>\<open>end_turn\<close>. The stop reason of a converted response is that function of the
  first candidate's finish reason and the converted content. A stream without failure ends
  with \<^verbatim>\<open>message_delta, message_stop\<close>, and the stop reason of that message delta is
  \<^verbatim>\<open>tool_use\<close> if a tool-use block was opened among the events before it, and
  \<^verbatim>\<open>end_turn\<close> otherwise.
\<close>

theorem stop_reason_mapping:
  "(list_ex is_tool_use blocks \<longrightarrow> convertFinishReason reason blocks = ToolUse) \<and>
   (\<not> list_ex is_tool_use blocks \<longrightarrow>
      convertFinishReason (Some STOP) blocks = EndTurn \<and>
      convertFinishReason (Some MAX_TOKENS) blocks = MaxTokens \<and>
      (reason \<noteq> Some STOP \<and> reason \<noteq> Some MAX_TOKENS \<longrightarrow>
         convertFinishReason reason blocks = EndTurn)) \<and>
   resp_stop_reason (fst (convert gen response L)) =
     convertFinishReason (upstream_finish_reason response)
       (resp_content (fst (convert gen response L))) \<and>
   ((\<forall>r\<in>set reads. \<not> is_read_failure r) \<longrightarrow>
      (\<exists>pre n. queue (convertStream gen L reads flush) =
         pre @ [MessageDelta (if list_ex is_tool_use_start pre then ToolUse else EndTurn) n,
                MessageStop]))"
proof -
  have a: "list_ex is_tool_use blocks \<longrightarrow> convertFinishReason reason blocks = ToolUse"
    by (simp add: convertFinishReason_def)
  have b: "\<not> list_ex is_tool_use blocks \<longrightarrow>
      convertFinishReason (Some STOP) blocks = EndTurn \<and>
      convertFinishReason (Some MAX_TOKENS) blocks = MaxTokens \<and>
      (reason \<noteq> Some STOP \<and> reason \<noteq> Some MAX_TOKENS \<longrightarrow>
         convertFinishReason reason blocks = EndTurn)"
    by (auto simp: convertFinishReason_def split: option.splits finish_reason.splits)
  have d: "\<exists>pre n. queue (convertStream gen L reads flush) =
         pre @ [MessageDelta (if list_ex is_tool_use_start pre then ToolUse else EndTurn) n,
                MessageStop]"
    if nf: "\<forall>r\<in>set reads. \<not> is_read_failure r"
  proof (cases "all_chunks reads flush = []")
    case True
    have "queue (convertStream gen L reads flush) =
            [MessageStart 0, Ping, ContentBlockStart 0 (TextBlock []), ContentBlockStop 0] @
            [MessageDelta (if list_ex is_tool_use_start
                [MessageStart 0, Ping, ContentBlockStart 0 (TextBlock []), ContentBlockStop 0]
               then ToolUse else EndTurn) 0, MessageStop]"
      using end_of_stream_initial[OF new_stream_initial[of L]] True
      by (simp add: convertStream_no_failure(2)[OF nf] new_stream_def)
    then show ?thesis by blast
  next
    case False
    from end_of_stream_inv(2)[OF convertStream_no_failure(1)[OF nf False]]
    show ?thesis by (simp add: convertStream_no_failure(2)[OF nf])
  qed
  from a b convert_stop_reason d show ?thesis by blast
qed

theorem stop_reason_mapping_witness:
  "list_ex is_tool_use (resp_content (fst (convert example_ids call_chunk new_ledger))) \<and>
   resp_stop_reason (fst (convert example_ids call_chunk new_ledger)) = ToolUse \<and>
   upstream_finish_reason call_chunk = Some STOP \<and>
   resp_stop_reason (fst (convert example_ids (text_chunk ''Hi'') new_ledger)) = EndTurn \<and>
   \<not> is_read_failure (ReadChunks [Parses (text_chunk ''Hi''), Parses call_chunk]) \<and>
   queue (convertStream example_ids new_ledger
            [ReadChunks [Parses (text_chunk ''Hi''), Parses call_chunk]] None) =
     [MessageStart 0, Ping, ContentBlockStart 0 (TextBlock []),
      ContentBlockDelta 0 (TextDelta ''Hi''), ContentBlockStop 0,
      ContentBlockStart 1 (ToolUseBlock ''toolu_'' ''get_weather'' (JObject [])),
      ContentBlockDelta 1 (InputJsonDelta (JObject [(''city'', JString ''Oslo'')])),
      ContentBlockStop 1,
      MessageDelta ToolUse 0, MessageStop]"
  using stop_reason_mapping[where gen=example_ids and response=call_chunk and L=new_ledger
          and reads="[ReadChunks [Parses (text_chunk ''Hi''), Parses call_chunk]]" and flush=None
          and blocks="resp_content (fst (convert example_ids call_chunk new_ledger))"
          and reason="Some STOP"]
  by (simp add: stream_eval convert_def convertParts_def convertFinishReason_def
        upstream_finish_reason_def call_chunk_def text_chunk_def new_ledger_def
        example_ids_def)

section \<open>Tokens of a response\<close>

lemma store_if_truthy_store: "sig_store (store_if_truthy s L) = sig_store L"
  by (simp add: store_if_truthy_def storeTextSignature_def split: option.splits)

lemma convert_part_store:
  "sig_store (fst (snd (convert_part gen part acc))) = sig_store (fst (snd acc))"
  by (cases "(gen, part, acc)" rule: convert_part.cases)
     (simp_all add: store_if_truthy_store Let_def)

lemma fold_convert_part_store:
  "sig_store (fst (snd (fold (convert_part gen) ps acc))) = sig_store (fst (snd acc))"
  by (induction ps arbitrary: acc) (simp_all add: convert_part_store)

lemma convertParts_store: "sig_store (snd (convertParts gen ps L)) = sig_store L"
  using fold_convert_part_store[of gen ps "([], L, 0)"]
  by (cases "fold (convert_part gen) ps ([], L, 0)") (simp add: convertParts_def)

text \<open>
  Claim C3 (tokens of a response are recoverable by position) does not hold of the code.
  \<^verbatim>\<open>convertParts\<close> never writes the store keyed by position: it only overwrites the last
  text signature. For the response \<open>call_chunk\<close>, whose function call carries the token
  \<^verbatim>\<open>sig_A\<close>, the ledger after the conversion has nothing at position (0, 0), and the
  signature pass over the replayed call attaches the sentinel, not the token.
\<close>

theorem response_token_not_recoverable:
  "sig_store (snd (convertParts gen ps L)) = sig_store L \<and>
   getSignature (snd (convert example_ids call_chunk new_ledger)) 0 0 = None \<and>
   lastTextSignature (snd (convert example_ids call_chunk new_ledger)) = Some ''sig_A'' \<and>
   ensureSignatures (snd (convert example_ids call_chunk new_ledger)) replayed_call True =
     [\<lparr>role = RModel,
       parts = [FunctionCallPart ''get_weather'' (Some (JObject [(''city'', JString ''Oslo'')]))
                  (Some DUMMY_THOUGHT_SIGNATURE)]\<rparr>]"
proof -
  have c: "snd (convert example_ids call_chunk new_ledger) =
             \<lparr>sig_store = Map.empty, lastTextSignature = Some ''sig_A''\<rparr>"
    by (simp add: convert_def convertParts_def call_chunk_def first_candidate_def
          store_if_truthy_def storeTextSignature_def new_ledger_def)
  show ?thesis
    by (simp add: convertParts_store c getSignature_def ensureSignatures_def
          replayed_call_def stored_or_dummy_def)
qed

section \<open>Properties of the schema sanitizer\<close>

lemma obj_get_obj_set:
  "obj_get (obj_set obj key value) k = (if k = key then Some value else obj_get obj k)"
  by (induction obj key "value" rule: obj_set.induct) auto

lemma obj_set_twice:
  "obj_set (obj_set obj key value) key value = obj_set obj key value"
  by (induction obj key "value" rule: obj_set.induct) auto

lemma keys_obj_set:
  "set (map fst (obj_set obj key value)) = insert key (set (map fst obj))"
  by (induction obj key "value" rule: obj_set.induct) auto

lemma distinct_obj_set:
  "distinct (map fst obj) \<Longrightarrow> distinct (map fst (obj_set obj key value))"
proof (induction obj key "value" rule: obj_set.induct)
  case (1 key "value")
  then show ?case by simp
next
  case (2 k v rest key "value")
  then show ?case
    using keys_obj_set[of rest key "value"] by auto
qed

lemma obj_set_new:
  "key \<notin> set (map fst obj) \<Longrightarrow> obj_set obj key value = obj @ [(key, value)]"
  by (induction obj key "value" rule: obj_set.induct) auto

lemma obj_get_None: "(obj_get obj key = None) = (key \<notin> set (map fst obj))"
  by (induction obj key rule: obj_get.induct) auto

lemma array_elements_not_array: "\<not> is_array v \<Longrightarrow> array_elements v = []"
  by (cases v rule: is_array.cases) auto

lemma scan_options_raises:
  "list_ex unprintable_const alts \<Longrightarrow> scan_options alts state = Inl TypeError"
proof (induction alts arbitrary: state)
  case Nil
  then show ?case by simp
next
  case (Cons alt alts)
  obtain ev ce san where st: "state = (ev, ce, san)" by (cases state) auto
  show ?case
  proof (cases "unprintable_const alt")
    case True
    then show ?thesis unfolding st
      by (cases alt) (auto split: option.splits)
  next
    case False
    with Cons.prems have "list_ex unprintable_const alts" by simp
    note ih = Cons.IH[OF this]
    show ?thesis unfolding st
      by (cases alt) (auto simp: ih Let_def split: option.splits)
  qed
qed

lemma scan_options_result:
  "\<not> list_ex unprintable_const alts \<Longrightarrow>
   scan_options alts (ev, ce, san) =
     Inr (ev @ collected_literals alts,
          ce \<and> list_all (\<lambda>alt. is_object_value alt \<longrightarrow> recognised alt) alts,
          if list_ex is_null_alternative alts then obj_set san ''nullable'' (JBool True) else san)"
proof (induction alts arbitrary: ev ce san)
  case Nil
  then show ?case by (simp add: collected_literals_def)
next
  case (Cons alt alts)
  from Cons.prems have rest: "\<not> list_ex unprintable_const alts"
    and here: "\<not> unprintable_const alt" by simp_all
  note ih = Cons.IH[OF rest]
  show ?case
  proof (cases alt)
    case (JObject opt)
    show ?thesis
    proof (cases "obj_get opt ''const''")
      case (Some c)
      with here JObject obtain s where s: "js_String c = Some s" by auto
      show ?thesis using JObject Some s
        by (simp add: ih collected_literals_def recognised_def)
    next
      case None
      show ?thesis
      proof (cases "is_array (obj_get opt ''enum'')")
        case True
        then show ?thesis using JObject None
          by (simp add: ih collected_literals_def recognised_def)
      next
        case False
        then show ?thesis using JObject None
          by (simp add: ih collected_literals_def recognised_def obj_set_twice
                array_elements_not_array)
      qed
    qed
  next
    case (JArray xs)
    then show ?thesis
      by (simp add: ih collected_literals_def recognised_def)
  qed (simp_all add: ih collected_literals_def)
qed

lemma flatten_alternatives_raises:
  assumes "pick_alternatives schema = Some (JArray alts)" and "list_ex unprintable_const alts"
  shows "flatten_alternatives schema sanitized = Inl TypeError"
proof -
  from assms(2) obtain a rest where alts: "alts = a # rest" by (cases alts) auto
  show ?thesis
    using scan_options_raises[OF assms(2), of "([], True, sanitized)"] assms(1)
    by (simp add: flatten_alternatives_def alts)
qed

lemma flatten_alternatives_eq:
  assumes "pick_alternatives schema = Some (JArray (a # rest))"
    and "\<not> list_ex unprintable_const (a # rest)"
  shows "flatten_alternatives schema sanitized =
     Inr (let sanitized1 = (if list_ex is_null_alternative (a # rest)
                            then obj_set sanitized ''nullable'' (JBool True) else sanitized)
          in if flattens (a # rest)
             then (let sanitized2 = obj_set sanitized1 ''enum'' (JArray (collected_literals (a # rest)))
                   in if \<not> truthy_property sanitized2 ''type''
                      then obj_set sanitized2 ''type'' (JString ''string'') else sanitized2)
             else sanitized1)"
proof -
  have scan: "scan_options (a # rest) ([], True, sanitized) =
     Inr (collected_literals (a # rest),
          list_all (\<lambda>alt. is_object_value alt \<longrightarrow> recognised alt) (a # rest),
          if list_ex is_null_alternative (a # rest)
          then obj_set sanitized ''nullable'' (JBool True) else sanitized)"
    using scan_options_result[OF assms(2), of "[]" True sanitized]
    by (simp del: scan_options.simps)
  show ?thesis
    by (auto simp add: flatten_alternatives_def assms(1) scan flattens_def Let_def
          simp del: scan_options.simps)
qed

lemma flatten_alternatives_result:
  assumes "pick_alternatives schema = Some (JArray alts)" and "alts \<noteq> []"
    and "\<not> list_ex unprintable_const alts"
  shows "\<exists>result. flatten_alternatives schema sanitized = Inr result \<and>
     obj_get result ''nullable'' =
       (if list_ex is_null_alternative alts then Some (JBool True)
        else obj_get sanitized ''nullable'') \<and>
     obj_get result ''enum'' =
       (if flattens alts then Some (JArray (collected_literals alts))
        else obj_get sanitized ''enum'') \<and>
     obj_get result ''type'' =
       (if flattens alts \<and> \<not> truthy_property sanitized ''type'' then Some (JString ''string'')
        else obj_get sanitized ''type'') \<and>
     (\<forall>key. key \<noteq> ''nullable'' \<and> key \<noteq> ''enum'' \<and> key \<noteq> ''type'' \<longrightarrow>
        obj_get result key = obj_get sanitized key)"
proof -
  from assms(2) obtain a rest where alts: "alts = a # rest" by (cases alts) auto
  note eq = flatten_alternatives_eq[OF assms(1)[unfolded alts] assms(3)[unfolded alts],
      of sanitized, folded alts]
  show ?thesis
    unfolding eq
    by (simp add: Let_def obj_get_obj_set truthy_property_def)
qed

lemma flatten_alternatives_none:
  assumes "\<not> (\<exists>a alts. pick_alternatives schema = Some (JArray (a # alts)))"
  shows "flatten_alternatives schema sanitized = Inr sanitized"
  using assms
  by (auto simp: flatten_alternatives_def split: option.splits json.splits list.splits)

lemmas schema_eval =
  entry_kind_def ALLOWED_SCHEMA_KEYS_def flatten_alternatives_def pick_alternatives_def
  coalesce_def truthy_property_def set_property_def Let_def

lemma colour_schema_sanitized:
  "sanitizeSchema colour_schema =
     Inr (JObject [(''enum'', JArray [JString ''red'', JString ''blue'']),
                   (''type'', JString ''string'')])"
  by (simp add: colour_schema_def schema_eval)

text \<open>
  Claim C4, as amended. Let \<open>base\<close> be the allow-listed copy of an object node, and let
  the first of \<^verbatim>\<open>anyOf\<close>, \<^verbatim>\<open>oneOf\<close>, \<^verbatim>\<open>allOf\<close> that is present and not null be a
  non-empty array \<open>alts\<close>. If the \<^verbatim>\<open>const\<close> of some object alternative cannot be
  printed, the call throws. Otherwise the result is \<open>base\<close> with \<^verbatim>\<open>nullable\<close> set to
  true when some object alternative without literals has type \<^verbatim>\<open>null\<close>; with
  \<^verbatim>\<open>enum\<close> set to the collected literals (the text of each \<^verbatim>\<open>const\<close>, the members of
  each \<^verbatim>\<open>enum\<close> array, in order) exactly when every alternative that is an object or an
  array is of one of the two forms and a literal was collected; with \<^verbatim>\<open>type\<close> set to
  \<^verbatim>\<open>string\<close> when the enum was set and the type of \<open>base\<close> is absent or falsy; and with
  every other property as in \<open>base\<close>. Alternatives that are not objects are skipped. When
  the chosen one of the three keys is not a non-empty array, the result is \<open>base\<close>. The
  scenario of the claim holds: the result has exactly the properties \<^verbatim>\<open>type\<close> and
  \<^verbatim>\<open>enum\<close>, with the values \<^verbatim>\<open>string\<close> and \<^verbatim>\<open>["red", "blue"]\<close>.
\<close>

theorem anyOf_flattening:
  "(copy_entries schema [] = Inr base \<and>
    pick_alternatives schema = Some (JArray alts) \<and> alts \<noteq> [] \<longrightarrow>
      (list_ex unprintable_const alts \<longrightarrow> sanitizeSchema (JObject schema) = Inl TypeError) \<and>
      (\<not> list_ex unprintable_const alts \<longrightarrow>
         (\<exists>result. sanitizeSchema (JObject schema) = Inr (JObject result) \<and>
            obj_get result ''nullable'' =
              (if list_ex is_null_alternative alts then Some (JBool True)
               else obj_get base ''nullable'') \<and>
            obj_get result ''enum'' =
              (if flattens alts then Some (JArray (collected_literals alts))
               else obj_get base ''enum'') \<and>
            obj_get result ''type'' =
              (if flattens alts \<and> \<not> truthy_property base ''type'' then Some (JString ''string'')
               else obj_get base ''type'') \<and>
            (\<forall>key. key \<noteq> ''nullable'' \<and> key \<noteq> ''enum'' \<and> key \<noteq> ''type'' \<longrightarrow>
               obj_get result key = obj_get base key)))) \<and>
   (copy_entries schema [] = Inr base \<and>
    \<not> (\<exists>a alts. pick_alternatives schema = Some (JArray (a # alts))) \<longrightarrow>
      sanitizeSchema (JObject schema) = Inr (JObject base)) \<and>
   (\<exists>result. sanitizeSchema colour_schema = Inr (JObject result) \<and>
      set (map fst result) = {''type'', ''enum''} \<and>
      obj_get result ''type'' = Some (JString ''string'') \<and>
      obj_get result ''enum'' = Some (JArray [JString ''red'', JString ''blue'']))"
proof -
  have a: "sanitizeSchema (JObject schema) = Inl TypeError"
    if "copy_entries schema [] = Inr base" and "pick_alternatives schema = Some (JArray alts)"
      and "list_ex unprintable_const alts"
    using that flatten_alternatives_raises[OF that(2,3), of base] by simp
  have b: "\<exists>result. sanitizeSchema (JObject schema) = Inr (JObject result) \<and>
            obj_get result ''nullable'' =
              (if list_ex is_null_alternative alts then Some (JBool True)
               else obj_get base ''nullable'') \<and>
            obj_get result ''enum'' =
              (if flattens alts then Some (JArray (collected_literals alts))
               else obj_get base ''enum'') \<and>
            obj_get result ''type'' =
              (if flattens alts \<and> \<not> truthy_property base ''type'' then Some (JString ''string'')
               else obj_get base ''type'') \<and>
            (\<forall>key. key \<noteq> ''nullable'' \<and> key \<noteq> ''enum'' \<and> key \<noteq> ''type'' \<longrightarrow>
               obj_get result key = obj_get base key)"
    if "copy_entries schema [] = Inr base" and "pick_alternatives schema = Some (JArray alts)"
      and "alts \<noteq> []" and "\<not> list_ex unprintable_const alts"
  proof -
    from flatten_alternatives_result[OF that(2,3,4), of base] obtain result where
      r: "flatten_alternatives schema base = Inr result" and
      p: "obj_get result ''nullable'' =
              (if list_ex is_null_alternative alts then Some (JBool True)
               else obj_get base ''nullable'') \<and>
            obj_get result ''enum'' =
              (if flattens alts then Some (JArray (collected_literals alts))
               else obj_get base ''enum'') \<and>
            obj_get result ''type'' =
              (if flattens alts \<and> \<not> truthy_property base ''type'' then Some (JString ''string'')
               else obj_get base ''type'') \<and>
            (\<forall>key. key \<noteq> ''nullable'' \<and> key \<noteq> ''enum'' \<and> key \<noteq> ''type'' \<longrightarrow>
               obj_get result key = obj_get base key)"
      by blast
    have "sanitizeSchema (JObject schema) = Inr (JObject result)"
      using that(1) r by simp
    with p show ?thesis by blast
  qed
  have c: "sanitizeSchema (JObject schema) = Inr (JObject base)"
    if "copy_entries schema [] = Inr base"
      and "\<not> (\<exists>a alts. pick_alternatives schema = Some (JArray (a # alts)))"
    using that(1) flatten_alternatives_none[OF that(2), of base] by simp
  have d: "\<exists>result. sanitizeSchema colour_schema = Inr (JObject result) \<and>
      set (map fst result) = {''type'', ''enum''} \<and>
      obj_get result ''type'' = Some (JString ''string'') \<and>
      obj_get result ''enum'' = Some (JArray [JString ''red'', JString ''blue''])"
    unfolding colour_schema_sanitized by auto
  from a b c d show ?thesis by blast
qed

lemma entry_kind_Properties: "entry_kind k v = Properties \<Longrightarrow> k = ''properties''"
  by (simp add: entry_kind_def split: if_splits)

lemma entry_kind_Items: "entry_kind k v = Items \<Longrightarrow> k = ''items''"
  by (simp add: entry_kind_def split: if_splits)

lemma entry_kind_allowed: "entry_kind k v \<noteq> Stripped \<Longrightarrow> k \<in> set ALLOWED_SCHEMA_KEYS"
  by (simp add: entry_kind_def split: if_splits)

lemma copy_properties_stable:
  "stable_props ps \<Longrightarrow> distinct (map fst (acc @ ps)) \<Longrightarrow>
   copy_properties ps acc = Inr (acc @ ps)"
proof (induction ps arbitrary: acc)
  case Nil
  then show ?case by simp
next
  case (Cons e ps)
  obtain p s where e: "e = (p, s)" by (cases e) auto
  from Cons.prems(1) have fs: "sanitizeSchema s = Inr s" and np: "p \<noteq> ''__proto__''"
    and rest: "stable_props ps"
    by (auto simp: stable_props_def fixed_def e)
  from Cons.prems(2) have new: "p \<notin> set (map fst acc)" by (auto simp: e)
  have d: "distinct (map fst ((acc @ [(p, s)]) @ ps))" using Cons.prems(2) by (simp add: e)
  show ?case
    using Cons.IH[OF rest d] by (simp add: e fs set_property_def np obj_set_new[OF new])
qed

lemma copy_entries_stable:
  "stable_object r \<Longrightarrow> distinct (map fst (acc @ r)) \<Longrightarrow>
   copy_entries r acc = Inr (acc @ r)"
proof (induction r arbitrary: acc)
  case Nil
  then show ?case by simp
next
  case (Cons e r)
  obtain k v where e: "e = (k, v)" by (cases e) auto
  from Cons.prems(1) have se: "stable_entry (k, v)" and rest: "stable_object r"
    by (auto simp: stable_object_def e)
  from Cons.prems(2) have new: "k \<notin> set (map fst acc)" by (auto simp: e)
  have d: "distinct (map fst ((acc @ [(k, v)]) @ r))" using Cons.prems(2) by (simp add: e)
  note ih = Cons.IH[OF rest d]
  show ?case
  proof (cases "entry_kind k v")
    case Stripped
    with se show ?thesis by (simp add: stable_entry_def)
  next
    case Properties
    with se obtain ps where v: "v = JObject ps" and sp: "stable_props ps"
      by (auto simp: stable_entry_def split: json.splits)
    have k: "k = ''properties''" using Properties by (rule entry_kind_Properties)
    have "copy_properties ps [] = Inr ps"
      using copy_properties_stable[OF sp, of "[]"] sp by (simp add: stable_props_def)
    then show ?thesis
      using ih Properties new by (simp add: e v k[symmetric] obj_set_new)
  next
    case Items
    with se have f: "sanitizeSchema v = Inr v" by (simp add: stable_entry_def fixed_def)
    have k: "k = ''items''" using Items by (rule entry_kind_Items)
    show ?thesis
      using ih Items new f by (simp add: e k[symmetric] obj_set_new)
  next
    case Copied
    then show ?thesis using ih new by (simp add: e obj_set_new)
  qed
qed

lemma stable_object_keys:
  "stable_object r \<Longrightarrow> set (map fst r) \<subseteq> set ALLOWED_SCHEMA_KEYS"
proof -
  assume "stable_object r"
  then have "\<forall>e\<in>set r. entry_kind (fst e) (snd e) \<noteq> Stripped"
    by (auto simp: stable_object_def list_all_iff stable_entry_def)
  then show ?thesis using entry_kind_allowed by fastforce
qed

lemma stable_object_no_alternatives:
  assumes "stable_object r"
  shows "pick_alternatives r = None"
proof -
  from stable_object_keys[OF assms]
  have "''anyOf'' \<notin> set (map fst r)" "''oneOf'' \<notin> set (map fst r)" "''allOf'' \<notin> set (map fst r)"
    by (auto simp: ALLOWED_SCHEMA_KEYS_def)
  then have "obj_get r ''anyOf'' = None" "obj_get r ''oneOf'' = None" "obj_get r ''allOf'' = None"
    by (simp_all add: obj_get_None)
  then show ?thesis
    by (simp add: pick_alternatives_def coalesce_def)
qed

lemma stable_object_fixed: "stable_object r \<Longrightarrow> fixed (JObject r)"
  using copy_entries_stable[of r "[]"] stable_object_no_alternatives[of r]
  by (simp add: fixed_def stable_object_def flatten_alternatives_def)

lemma list_all_obj_set:
  "list_all P obj \<Longrightarrow> P (key, value) \<Longrightarrow> list_all P (obj_set obj key value)"
  by (induction obj key "value" rule: obj_set.induct) auto

lemma stable_object_obj_set:
  "stable_object acc \<Longrightarrow> stable_entry (k, v) \<Longrightarrow> stable_object (obj_set acc k v)"
  by (simp add: stable_object_def distinct_obj_set list_all_obj_set)

lemma stable_props_set_property:
  "stable_props acc \<Longrightarrow> fixed s \<Longrightarrow> stable_props (set_property acc p s)"
  by (auto simp: stable_props_def set_property_def distinct_obj_set keys_obj_set
        list_all_obj_set simp del: set_map)

lemma stable_entry_plain:
  "k \<in> set ALLOWED_SCHEMA_KEYS \<Longrightarrow> k \<noteq> ''properties'' \<Longrightarrow> k \<noteq> ''items'' \<Longrightarrow>
   stable_entry (k, v)"
  by (simp add: stable_entry_def entry_kind_def)

lemma scan_options_stable:
  assumes "scan_options alts (ev, ce, san) = Inr (ev1, ce1, san1)" and "stable_object san"
  shows "stable_object san1"
proof -
  have np: "\<not> list_ex unprintable_const alts"
  proof
    assume "list_ex unprintable_const alts"
    from scan_options_raises[OF this, of "(ev, ce, san)"] assms(1) show False by simp
  qed
  have e: "stable_entry (''nullable'', JBool True)"
    by (rule stable_entry_plain) (simp_all add: ALLOWED_SCHEMA_KEYS_def)
  have n: "stable_object (obj_set san ''nullable'' (JBool True))"
    using assms(2) e by (rule stable_object_obj_set)
  have "san1 = (if list_ex is_null_alternative alts
                then obj_set san ''nullable'' (JBool True) else san)"
    using scan_options_result[OF np, of ev ce san] assms(1) by simp
  then show ?thesis using n assms(2) by simp
qed

lemma flatten_alternatives_stable:
  assumes "flatten_alternatives schema san = Inr r" and "stable_object san"
  shows "stable_object r"
proof (cases "\<exists>a alts. pick_alternatives schema = Some (JArray (a # alts))")
  case False
  with assms show ?thesis by (simp add: flatten_alternatives_none)
next
  case True
  then obtain a alts where p: "pick_alternatives schema = Some (JArray (a # alts))" by blast
  have np: "\<not> list_ex unprintable_const (a # alts)"
  proof
    assume "list_ex unprintable_const (a # alts)"
    from flatten_alternatives_raises[OF p this, of san] assms(1) show False by simp
  qed
  define s1 where "s1 = (if list_ex is_null_alternative (a # alts)
             then obj_set san ''nullable'' (JBool True) else san)"
  define s2 where "s2 = obj_set s1 ''enum'' (JArray (collected_literals (a # alts)))"
  define s3 where "s3 = obj_set s2 ''type'' (JString ''string'')"
  have en: "stable_entry (''nullable'', JBool True)"
    by (rule stable_entry_plain) (simp_all add: ALLOWED_SCHEMA_KEYS_def)
  have ee: "stable_entry (''enum'', v)" for v
    by (rule stable_entry_plain) (simp_all add: ALLOWED_SCHEMA_KEYS_def)
  have et: "stable_entry (''type'', v)" for v
    by (rule stable_entry_plain) (simp_all add: ALLOWED_SCHEMA_KEYS_def)
  have st1: "stable_object s1"
    unfolding s1_def using stable_object_obj_set[OF assms(2) en] assms(2) by simp
  have st2: "stable_object s2"
    unfolding s2_def using st1 ee by (rule stable_object_obj_set)
  have st3: "stable_object s3"
    unfolding s3_def using st2 et by (rule stable_object_obj_set)
  have r: "r = (if flattens (a # alts)
                then (if \<not> truthy_property s2 ''type'' then s3 else s2) else s1)"
    using flatten_alternatives_eq[OF p np, of san] assms(1)
    unfolding s1_def[symmetric] Let_def s2_def[symmetric] s3_def[symmetric] by simp
  show ?thesis
    unfolding r using st1 st2 st3 by simp
qed

lemma sanitize_preserves:
  shows "sanitizeSchema x = Inr y \<Longrightarrow> fixed y"
    and "copy_entries kvs acc = Inr r \<Longrightarrow> stable_object acc \<Longrightarrow> stable_object r"
    and "copy_properties ps pacc = Inr pr \<Longrightarrow> stable_props pacc \<Longrightarrow> stable_props pr"
    and "copy_elements i xs eacc = Inr er \<Longrightarrow> stable_props eacc \<Longrightarrow> stable_props er"
proof (induction x and kvs acc and ps pacc and i xs eacc
    arbitrary: y and r and pr and er
    rule: sanitizeSchema_copy_entries_copy_properties_copy_elements.induct)
  case (1 schema)
  from "1.prems" obtain san res where
    c: "copy_entries schema [] = Inr san" and
    f: "flatten_alternatives schema san = Inr res" and y: "y = JObject res"
    by (auto split: sum.splits)
  have "stable_object san" using "1.IH"[OF c] by (simp add: stable_object_def)
  then have "stable_object res" using f by (auto intro: flatten_alternatives_stable)
  then show ?case unfolding y by (rule stable_object_fixed)
next
  case 2
  then show ?case by (auto simp: fixed_def)
next
  case (3 b)
  then show ?case by (auto simp: fixed_def)
next
  case (4 n)
  then show ?case by (auto simp: fixed_def)
next
  case (5 s)
  then show ?case by (auto simp: fixed_def)
next
  case (6 xs)
  then show ?case by (auto simp: fixed_def)
next
  case (7 sanitized)
  then show ?case by simp
next
  case (8 key "value" rest sanitized)
  show ?case
  proof (cases "entry_kind key value")
    case Stripped
    from "8.prems"(1) have "copy_entries rest sanitized = Inr r"
      by (simp add: Stripped)
    with Stripped show ?thesis using "8.prems"(2) by (rule "8.IH"(1))
  next
    case Properties
    define pv where "pv = (case value of JArray xs \<Rightarrow> copy_elements 0 xs []
           | JObject ps \<Rightarrow> copy_properties ps [] | _ \<Rightarrow> Inr [])"
    have u: "copy_entries ((key, value) # rest) sanitized =
        (case pv of Inl e \<Rightarrow> Inl e
         | Inr props \<Rightarrow> copy_entries rest (obj_set sanitized ''properties'' (JObject props)))"
      unfolding pv_def by (simp add: Properties)
    from "8.prems"(1) obtain props where
      p: "pv = Inr props" and
      rest: "copy_entries rest (obj_set sanitized ''properties'' (JObject props)) = Inr r"
      unfolding u by (cases pv) simp_all
    have ov: "is_object_value value"
      using Properties by (simp add: entry_kind_def split: if_splits)
    have e: "stable_props []" by (simp add: stable_props_def)
    have sp: "stable_props props"
    proof (cases "value")
      case (JArray xs)
      with p have "copy_elements 0 xs [] = Inr props" by (simp add: pv_def)
      with Properties JArray show ?thesis using e by (rule "8.IH"(2))
    next
      case (JObject ps)
      with p have "copy_properties ps [] = Inr props" by (simp add: pv_def)
      with Properties JObject show ?thesis using e by (rule "8.IH"(3))
    qed (use ov in simp_all)
    then have "stable_entry (''properties'', JObject props)"
      by (simp add: stable_entry_def entry_kind_def ALLOWED_SCHEMA_KEYS_def)
    with "8.prems"(2) have "stable_object (obj_set sanitized ''properties'' (JObject props))"
      by (rule stable_object_obj_set)
    with Properties p[unfolded pv_def] rest show ?thesis by (rule "8.IH"(4))
  next
    case Items
    from "8.prems"(1) obtain item where
      i: "sanitizeSchema value = Inr item" and
      rest: "copy_entries rest (obj_set sanitized ''items'' item) = Inr r"
      by (cases "sanitizeSchema value") (simp_all add: Items)
    have "fixed item" using Items i by (rule "8.IH"(5))
    then have "stable_entry (''items'', item)"
      by (simp add: stable_entry_def entry_kind_def ALLOWED_SCHEMA_KEYS_def)
    with "8.prems"(2) have "stable_object (obj_set sanitized ''items'' item)"
      by (rule stable_object_obj_set)
    with Items i rest show ?thesis by (rule "8.IH"(6))
  next
    case Copied
    from "8.prems"(1) have c: "copy_entries rest (obj_set sanitized key value) = Inr r"
      by (simp add: Copied)
    have "stable_entry (key, value)" using Copied by (simp add: stable_entry_def)
    with "8.prems"(2) have "stable_object (obj_set sanitized key value)"
      by (rule stable_object_obj_set)
    with Copied c show ?thesis by (rule "8.IH"(7))
  qed
next
  case (9 props)
  then show ?case by simp
next
  case (10 propName propSchema rest props)
  from "10.prems"(1) obtain s where
    s: "sanitizeSchema propSchema = Inr s" and
    rest: "copy_properties rest (set_property props propName s) = Inr pr"
    by (cases "sanitizeSchema propSchema") simp_all
  have "fixed s" using s by (rule "10.IH"(1))
  then have "stable_props (set_property props propName s)"
    using "10.prems"(2) by (simp add: stable_props_set_property)
  with s rest show ?case by (rule "10.IH"(2))
next
  case (11 i props)
  then show ?case by simp
next
  case (12 i propSchema rest props)
  from "12.prems"(1) obtain s where
    s: "sanitizeSchema propSchema = Inr s" and
    rest: "copy_elements (Suc i) rest (set_property props (index_key i) s) = Inr er"
    by (cases "sanitizeSchema propSchema") simp_all
  have "fixed s" using s by (rule "12.IH"(1))
  then have "stable_props (set_property props (index_key i) s)"
    using "12.prems"(2) by (simp add: stable_props_set_property)
  with s rest show ?case by (rule "12.IH"(2))
qed

theorem anyOf_flattening_witness:
  "copy_entries mixed_schema [] = Inr [(''description'', JString ''pick one'')] \<and>
   pick_alternatives mixed_schema = Some (JArray mixed_alternatives) \<and>
   mixed_alternatives \<noteq> [] \<and>
   \<not> list_ex unprintable_const mixed_alternatives \<and>
   flattens mixed_alternatives \<and>
   (\<exists>result. sanitizeSchema (JObject mixed_schema) = Inr (JObject result) \<and>
      obj_get result ''nullable'' = Some (JBool True) \<and>
      obj_get result ''enum'' = Some (JArray [JString ''1'', JString ''a'', JString ''b'']) \<and>
      obj_get result ''type'' = Some (JString ''string'') \<and>
      obj_get result ''description'' = Some (JString ''pick one'') \<and>
      obj_get result ''title'' = None)"
proof -
  have c: "copy_entries mixed_schema [] = Inr [(''description'', JString ''pick one'')]"
    by (simp add: mixed_schema_def schema_eval)
  have p: "pick_alternatives mixed_schema = Some (JArray mixed_alternatives)"
    by (simp add: mixed_schema_def schema_eval)
  have n: "mixed_alternatives \<noteq> []" by (simp add: mixed_alternatives_def)
  have u: "\<not> list_ex unprintable_const mixed_alternatives"
    by (simp add: mixed_alternatives_def)
  have f: "flattens mixed_alternatives"
    by (simp add: mixed_alternatives_def flattens_def collected_literals_def recognised_def)
  have l: "collected_literals mixed_alternatives = [JString ''1'', JString ''a'', JString ''b'']"
    by (simp add: mixed_alternatives_def collected_literals_def)
  have nl: "list_ex is_null_alternative mixed_alternatives"
    by (simp add: mixed_alternatives_def)
  from anyOf_flattening[where schema=mixed_schema
      and base="[(''description'', JString ''pick one'')]" and alts=mixed_alternatives]
    c p n u
  have "\<exists>result. sanitizeSchema (JObject mixed_schema) = Inr (JObject result) \<and>
            obj_get result ''nullable'' =
              (if list_ex is_null_alternative mixed_alternatives then Some (JBool True)
               else obj_get [(''description'', JString ''pick one'')] ''nullable'') \<and>
            obj_get result ''enum'' =
              (if flattens mixed_alternatives then Some (JArray (collected_literals mixed_alternatives))
               else obj_get [(''description'', JString ''pick one'')] ''enum'') \<and>
            obj_get result ''type'' =
              (if flattens mixed_alternatives \<and>
                  \<not> truthy_property [(''description'', JString ''pick one'')] ''type''
               then Some (JString ''string'')
               else obj_get [(''description'', JString ''pick one'')] ''type'') \<and>
            (\<forall>key. key \<noteq> ''nullable'' \<and> key \<noteq> ''enum'' \<and> key \<noteq> ''type'' \<longrightarrow>
               obj_get result key = obj_get [(''description'', JString ''pick one'')] key)"
    by blast
  then obtain result where
    r: "sanitizeSchema (JObject mixed_schema) = Inr (JObject result)" and
    a: "obj_get result ''nullable'' = Some (JBool True)" and
    b: "obj_get result ''enum'' = Some (JArray [JString ''1'', JString ''a'', JString ''b''])" and
    t: "obj_get result ''type'' = Some (JString ''string'')" and
    o: "\<forall>key. key \<noteq> ''nullable'' \<and> key \<noteq> ''enum'' \<and> key \<noteq> ''type'' \<longrightarrow>
               obj_get result key = obj_get [(''description'', JString ''pick one'')] key"
    unfolding l by (auto simp: f nl truthy_property_def)
  from o have d: "obj_get result ''description'' = Some (JString ''pick one'')"
    and ti: "obj_get result ''title'' = None" by simp_all
  from c p n u f r a b t d ti show ?thesis by blast
qed

text \<open>
  The claim as written fails where an alternative is not an object: the boolean schema
  \<^verbatim>\<open>true\<close> is of neither form, yet the enum is added. It also fails where an empty
  \<^verbatim>\<open>anyOf\<close> stands beside a non-empty \<^verbatim>\<open>oneOf\<close>: the \<^verbatim>\<open>oneOf\<close> is not looked at.
\<close>

theorem flattening_skips_other_alternatives:
  "\<not> recognised (JBool True) \<and>
   sanitizeSchema boolean_alternative_schema =
     Inr (JObject [(''enum'', JArray [JString ''a'']), (''type'', JString ''string'')]) \<and>
   sanitizeSchema shadowed_oneOf_schema = Inr (JObject [])"
  by (simp add: recognised_def boolean_alternative_schema_def shadowed_oneOf_schema_def
        schema_eval)

text \<open>
  Claim C5 (the sanitizer is idempotent). For every JSON value, sanitising the result of
  sanitising gives what sanitising gives: when the first call returns a value, the second
  call returns that same value, and when the first call throws, so does the composition.
\<close>

theorem sanitizeSchema_idempotent:
  "sanitize_twice x = sanitizeSchema x \<and>
   (sanitizeSchema x = Inr y \<longrightarrow> sanitizeSchema y = Inr y)"
proof -
  have fp: "sanitizeSchema v = Inr w \<Longrightarrow> sanitizeSchema w = Inr w" for v w
    using sanitize_preserves(1)[of v w] by (simp add: fixed_def)
  have "sanitize_twice x = sanitizeSchema x"
    by (cases "sanitizeSchema x") (simp_all add: sanitize_twice_def fp)
  with fp show ?thesis by blast
qed

theorem sanitizeSchema_idempotent_witness:
  "sanitizeSchema nested_schema =
     Inr (JObject [(''type'', JString ''object''),
                   (''properties'',
                      JObject [(''colour'', JObject [(''enum'', JArray [JString ''red'', JString ''blue'']),
                                                    (''type'', JString ''string'')]),
                               (''size'', JObject [(''type'', JString ''number'')])]),
                   (''required'', JArray [JString ''colour''])]) \<and>
   sanitize_twice nested_schema = sanitizeSchema nested_schema"
  using sanitizeSchema_idempotent[of nested_schema]
  by (simp add: nested_schema_def colour_schema_def schema_eval)

end
